theory Spec2Isabelle
  imports Main "HOL-Library.Product_Lexorder" "HOL-Library.List_Lexorder" "HOL-Library.Char_ord"
begin

section \<open>Configuration, errors and strings\<close>

text \<open>
  The fields of \<^verbatim>\<open>config\<close> that the modelled functions read. Thrown exceptions and
  rejected promises are values of \<open>error\<close>.
\<close>

record Config =
  chainId :: int
  acceptOrders :: bool
  doBackgroundWork :: bool

datatype error =
    DecodeError string
  | TypeError
  | SyntaxError string
  | LockError

text \<open>
  \<^verbatim>\<open>String.prototype.toLowerCase\<close> on the ASCII range, which holds every character of
  a hex-encoded hash or address.
\<close>

definition upperChars :: string where
  "upperChars = ''ABCDEFGHIJKLMNOPQRSTUVWXYZ''"

definition lowerChars :: string where
  "lowerChars = ''abcdefghijklmnopqrstuvwxyz''"

definition lowerChar :: "char \<Rightarrow> char" where
  "lowerChar c = (case map_of (zip upperChars lowerChars) c of Some d \<Rightarrow> d | None \<Rightarrow> c)"

definition toLowerCase :: "string \<Rightarrow> string" where
  "toLowerCase s = map lowerChar s"

definition isLowerCase :: "string \<Rightarrow> bool" where
  "isLowerCase s = (list_all (\<lambda>c. c \<notin> set upperChars) s)"

text \<open>\<^verbatim>\<open>toString()\<close> of a non-negative integer (a number or a BigNumber): its decimal digits.\<close>

definition digitChars :: string where
  "digitChars = ''0123456789''"

fun toString :: "nat \<Rightarrow> string" where
  "toString n =
     (if n < 10 then [digitChars ! n]
      else toString (n div 10) @ [digitChars ! (n mod 10)])"

declare toString.simps [simp del]

text \<open>
  The database reads a quoted literal that is compared with a numeric column back as a
  number. The literals that reach it here are the digit strings that \<open>toString\<close>
  makes; a string with any other character is taken as no number.
\<close>

definition digitValue :: "char \<Rightarrow> nat option" where
  "digitValue c = map_of (zip digitChars [0 ..< 10]) c"

fun numericOfDigits :: "nat \<Rightarrow> string \<Rightarrow> nat option" where
  "numericOfDigits acc [] = Some acc"
| "numericOfDigits acc (c # cs) =
     (case digitValue c of
        None \<Rightarrow> None
      | Some v \<Rightarrow> numericOfDigits (10 * acc + v) cs)"

definition numericOfString :: "string \<Rightarrow> nat option" where
  "numericOfString s = (if s = [] then None else numericOfDigits 0 s)"

section \<open>Query building blocks\<close>

text \<open>
  \<^verbatim>\<open>ORDER BY k DESC\<close>, \<^verbatim>\<open>LIMIT n\<close>, a scalar subquery (the first row, or NULL when there
  is none) and \<^verbatim>\<open>coalesce\<close> with two arguments.
\<close>

definition orderByDesc :: "('r \<Rightarrow> 'k::linorder) \<Rightarrow> 'r list \<Rightarrow> 'r list" where
  "orderByDesc k rows = rev (sort_key k rows)"

definition limitRows :: "nat \<Rightarrow> 'r list \<Rightarrow> 'r list" where
  "limitRows n rows = take n rows"

definition scalarSubquery :: "'v list \<Rightarrow> 'v option" where
  "scalarSubquery rows = (case rows of [] \<Rightarrow> None | v # _ \<Rightarrow> Some v)"

definition coalesce :: "'v option \<Rightarrow> 'v \<Rightarrow> 'v" where
  "coalesce v d = (case v of None \<Rightarrow> d | Some x \<Rightarrow> x)"

section \<open>orderbook/orders/common/helpers.ts: getMinNonce\<close>

text \<open>
  A row of \<^verbatim>\<open>bulk_cancel_events\<close>. The maker column holds the bytes that \<^verbatim>\<open>toBuffer\<close>
  makes of an address; \<^verbatim>\<open>toBuffer\<close> is imported from another module and is a parameter.
\<close>

record 'b BulkCancelRow =
  bcr_order_kind :: string
  bcr_maker :: 'b
  bcr_min_nonce :: int

definition getMinNonce ::
  "Config \<Rightarrow> (string \<Rightarrow> 'b) \<Rightarrow> 'b BulkCancelRow list \<Rightarrow> string \<Rightarrow> string \<Rightarrow> int" where
  "getMinNonce config toBuffer bulk_cancel_events orderKind maker =
     (let matching = filter (\<lambda>r. bcr_order_kind r = orderKind \<and> bcr_maker r = toBuffer maker)
                       bulk_cancel_events
      in if chainId config = 4 \<and> orderKind = ''wyvern-v2.3'' then
           coalesce
             (scalarSubquery
                (map (\<lambda>r. bcr_min_nonce r + 1) (limitRows 1 (orderByDesc bcr_min_nonce matching))))
             0
         else
           coalesce
             (scalarSubquery
                (map bcr_min_nonce (limitRows 1 (orderByDesc bcr_min_nonce matching))))
             0)"

text \<open>The bulk-cancel minimum nonces recorded for an (order kind, maker) pair.\<close>

definition recordedNonces :: "(string \<Rightarrow> 'b) \<Rightarrow> 'b BulkCancelRow list \<Rightarrow> string \<Rightarrow> string \<Rightarrow> int set" where
  "recordedNonces toBuffer bulk_cancel_events orderKind maker =
     bcr_min_nonce ` {r \<in> set bulk_cancel_events.
        bcr_order_kind r = orderKind \<and> bcr_maker r = toBuffer maker}"

section \<open>sync/onchain/events/wyvern-v2.3/index.ts: data\<close>

text \<open>The raw log of the provider (\<^verbatim>\<open>Log\<close> of ethers).\<close>

record Log =
  log_address :: string
  log_topics :: "string list"
  log_data :: string
  log_blockNumber :: nat
  log_blockHash :: string
  log_transactionHash :: string
  log_logIndex :: nat

text \<open>
  Modelled from the spec: the declaration of \<^verbatim>\<open>BaseEventParams\<close> (module
  \<^verbatim>\<open>@/events/parser\<close>) is missing; its fields are the ones section 3 of the specification lists.
\<close>

record BaseEventParams =
  bp_address :: string
  bp_txHash :: string
  bp_logIndex :: nat
  bp_batchIndex :: nat
  bp_block :: nat
  bp_blockHash :: string
  bp_timestamp :: nat

record CancelEvent =
  ce_orderHash :: string
  ce_baseParams :: BaseEventParams

record FillEvent =
  fe_buyHash :: string
  fe_sellHash :: string
  fe_maker :: string
  fe_taker :: string
  fe_price :: string
  fe_baseParams :: BaseEventParams

record BulkCancelEvent =
  bc_context :: string
  bc_maker :: string
  bc_newNonce :: string

record HashInfo =
  hi_context :: string
  hi_hash :: string

record FillInfo =
  fi_context :: string
  fi_buyHash :: string
  fi_sellHash :: string
  fi_block :: nat

text \<open>
  The decoded arguments of the three events of the contract interface \<^verbatim>\<open>abi\<close>:
  \<^verbatim>\<open>OrderCancelled(hash)\<close>, \<^verbatim>\<open>OrdersMatched(buyHash, sellHash, maker, taker, price, metadata)\<close>
  and \<^verbatim>\<open>NonceIncremented(maker, newNonce)\<close>.
\<close>

datatype LogArgs =
    OrderCancelledArgs string
  | OrdersMatchedArgs string string string string nat string
  | NonceIncrementedArgs string nat

text \<open>
  What the callback calls outside its own file: \<^verbatim>\<open>parseEvent\<close> (which may throw),
  \<^verbatim>\<open>abi.getEventTopic\<close> and \<^verbatim>\<open>abi.parseLog\<close> together with the reading of the decoded
  arguments (which may throw). They are parameters of the model.
\<close>

record Deps =
  parseEvent :: "Log \<Rightarrow> error + BaseEventParams"
  getEventTopic :: "string \<Rightarrow> string"
  parseLog :: "Log \<Rightarrow> error + LogArgs"

text \<open>
  The five arrays that the loop of \<^verbatim>\<open>syncCallback\<close> fills, and the messages it hands to
  \<^verbatim>\<open>logger.error\<close>.
\<close>

record Parsed =
  bulkCancelEvents :: "BulkCancelEvent list"
  cancelEvents :: "CancelEvent list"
  fillEvents :: "FillEvent list"
  hashInfos :: "HashInfo list"
  fillInfos :: "FillInfo list"
  loggedErrors :: "error list"

definition emptyParsed :: Parsed where
  "emptyParsed =
     \<lparr>bulkCancelEvents = [], cancelEvents = [], fillEvents = [], hashInfos = [],
      fillInfos = [], loggedErrors = []\<rparr>"

text \<open>The arrays of \<open>p\<close> followed by those of \<open>q\<close>.\<close>

definition appendParsed :: "Parsed \<Rightarrow> Parsed \<Rightarrow> Parsed" where
  "appendParsed p q =
     \<lparr>bulkCancelEvents = bulkCancelEvents p @ bulkCancelEvents q,
      cancelEvents = cancelEvents p @ cancelEvents q,
      fillEvents = fillEvents p @ fillEvents q,
      hashInfos = hashInfos p @ hashInfos q,
      fillInfos = fillInfos p @ fillInfos q,
      loggedErrors = loggedErrors p @ loggedErrors q\<rparr>"

section \<open>syncCallback: the loop over the logs\<close>

text \<open>
  One function for each \<^verbatim>\<open>case\<close> of the \<^verbatim>\<open>switch\<close>. Reading an argument that the decoded
  log does not have gives \<^verbatim>\<open>undefined\<close>, and calling a method on it throws a TypeError.
\<close>

fun caseOrderCancelled :: "string \<Rightarrow> BaseEventParams \<Rightarrow> Parsed \<Rightarrow> LogArgs \<Rightarrow> error + Parsed" where
  "caseOrderCancelled context baseParams acc (OrderCancelledArgs hash) =
     (let orderHash = toLowerCase hash in
      Inr (acc\<lparr>cancelEvents := cancelEvents acc @
                  [\<lparr>ce_orderHash = orderHash, ce_baseParams = baseParams\<rparr>],
               hashInfos := hashInfos acc @ [\<lparr>hi_context = context, hi_hash = orderHash\<rparr>]\<rparr>))"
| "caseOrderCancelled context baseParams acc _ = Inl TypeError"

fun caseOrdersMatched :: "string \<Rightarrow> BaseEventParams \<Rightarrow> Parsed \<Rightarrow> LogArgs \<Rightarrow> error + Parsed" where
  "caseOrdersMatched context baseParams acc (OrdersMatchedArgs buyHash0 sellHash0 maker0 taker0 price0 metadata) =
     (let buyHash = toLowerCase buyHash0;
          sellHash = toLowerCase sellHash0;
          maker = toLowerCase maker0;
          taker = toLowerCase taker0;
          price = toString price0
      in Inr (acc\<lparr>fillEvents := fillEvents acc @
                     [\<lparr>fe_buyHash = buyHash, fe_sellHash = sellHash, fe_maker = maker,
                       fe_taker = taker, fe_price = price, fe_baseParams = baseParams\<rparr>],
                  hashInfos := hashInfos acc @
                     [\<lparr>hi_context = context, hi_hash = buyHash\<rparr>,
                      \<lparr>hi_context = context, hi_hash = sellHash\<rparr>],
                  fillInfos := fillInfos acc @
                     [\<lparr>fi_context = context, fi_buyHash = buyHash, fi_sellHash = sellHash,
                       fi_block = bp_block baseParams\<rparr>]\<rparr>))"
| "caseOrdersMatched context baseParams acc _ = Inl TypeError"

fun caseNonceIncremented :: "string \<Rightarrow> BaseEventParams \<Rightarrow> Parsed \<Rightarrow> LogArgs \<Rightarrow> error + Parsed" where
  "caseNonceIncremented context baseParams acc (NonceIncrementedArgs maker0 newNonce0) =
     (let maker = toLowerCase maker0;
          newNonce = toString newNonce0
      in Inr (acc\<lparr>bulkCancelEvents := bulkCancelEvents acc @
                     [\<lparr>bc_context = context, bc_maker = maker, bc_newNonce = newNonce\<rparr>]\<rparr>))"
| "caseNonceIncremented context baseParams acc _ = Inl TypeError"

text \<open>
  The body of the \<^verbatim>\<open>try\<close> block for one log. \<^verbatim>\<open>log.topics[0]\<close> of a log without topics is
  \<^verbatim>\<open>undefined\<close> and matches no case. Every statement that can throw stands before the first
  \<^verbatim>\<open>push\<close> of its case, so a throwing body leaves the arrays as they were.
\<close>

definition tryBody :: "Deps \<Rightarrow> Log \<Rightarrow> Parsed \<Rightarrow> error + Parsed" where
  "tryBody deps log acc =
     (case parseEvent deps log of
        Inl e \<Rightarrow> Inl e
      | Inr baseParams \<Rightarrow>
          (let context = bp_txHash baseParams @ ''-'' @ toString (bp_logIndex baseParams) in
           case log_topics log of
             [] \<Rightarrow> Inr acc
           | topic0 # _ \<Rightarrow>
               if topic0 = getEventTopic deps ''OrderCancelled'' then
                 (case parseLog deps log of
                    Inl e \<Rightarrow> Inl e
                  | Inr args \<Rightarrow> caseOrderCancelled context baseParams acc args)
               else if topic0 = getEventTopic deps ''OrdersMatched'' then
                 (case parseLog deps log of
                    Inl e \<Rightarrow> Inl e
                  | Inr args \<Rightarrow> caseOrdersMatched context baseParams acc args)
               else if topic0 = getEventTopic deps ''NonceIncremented'' then
                 (case parseLog deps log of
                    Inl e \<Rightarrow> Inl e
                  | Inr args \<Rightarrow> caseNonceIncremented context baseParams acc args)
               else Inr acc))"

text \<open>The \<^verbatim>\<open>for\<close> loop: the \<^verbatim>\<open>catch\<close> clause logs the error and the loop goes on.\<close>

fun parseLogs :: "Deps \<Rightarrow> Log list \<Rightarrow> Parsed \<Rightarrow> Parsed" where
  "parseLogs deps [] acc = acc"
| "parseLogs deps (log # logs) acc =
     (case tryBody deps log acc of
        Inr acc' \<Rightarrow> parseLogs deps logs acc'
      | Inl e \<Rightarrow> parseLogs deps logs (acc\<lparr>loggedErrors := loggedErrors acc @ [e]\<rparr>))"

text \<open>What one pass of the loop adds for a log: its pushes, or the error it logs.\<close>

definition logOutput :: "Deps \<Rightarrow> Log \<Rightarrow> Parsed" where
  "logOutput deps log =
     (case tryBody deps log emptyParsed of
        Inl e \<Rightarrow> emptyParsed\<lparr>loggedErrors := [e]\<rparr>
      | Inr p \<Rightarrow> p)"

text \<open>
  The event whose \<^verbatim>\<open>case\<close> the \<^verbatim>\<open>switch\<close> on \<^verbatim>\<open>log.topics[0]\<close> reaches, if any, and whether
  decoded arguments are those of an event.
\<close>

definition switchCase :: "Deps \<Rightarrow> Log \<Rightarrow> string option" where
  "switchCase deps log =
     (case log_topics log of
        [] \<Rightarrow> None
      | topic0 # _ \<Rightarrow>
          if topic0 = getEventTopic deps ''OrderCancelled'' then Some ''OrderCancelled''
          else if topic0 = getEventTopic deps ''OrdersMatched'' then Some ''OrdersMatched''
          else if topic0 = getEventTopic deps ''NonceIncremented'' then Some ''NonceIncremented''
          else None)"

fun argsOf :: "string \<Rightarrow> LogArgs \<Rightarrow> bool" where
  "argsOf name (OrderCancelledArgs hash) = (name = ''OrderCancelled'')"
| "argsOf name (OrdersMatchedArgs buyHash sellHash maker taker price metadata) =
     (name = ''OrdersMatched'')"
| "argsOf name (NonceIncrementedArgs maker newNonce) = (name = ''NonceIncremented'')"

text \<open>
  A log is malformed when it does not decode: \<^verbatim>\<open>parseEvent\<close> throws on it, or it has the
  topic of one of the three events and \<^verbatim>\<open>abi.parseLog\<close> throws on it or does not give the
  arguments of that event. It is a well-formed log of a known event type when it has the
  topic of one of the three events and decodes.
\<close>

definition malformed :: "Deps \<Rightarrow> Log \<Rightarrow> bool" where
  "malformed deps log =
     (case parseEvent deps log of
        Inl e \<Rightarrow> True
      | Inr baseParams \<Rightarrow>
          (case switchCase deps log of
             None \<Rightarrow> False
           | Some name \<Rightarrow>
               (case parseLog deps log of
                  Inl e \<Rightarrow> True
                | Inr args \<Rightarrow> \<not> argsOf name args)))"

definition knownTopic :: "Deps \<Rightarrow> Log \<Rightarrow> bool" where
  "knownTopic deps log =
     (case log_topics log of
        [] \<Rightarrow> False
      | topic0 # _ \<Rightarrow>
          topic0 = getEventTopic deps ''OrderCancelled''
          \<or> topic0 = getEventTopic deps ''OrdersMatched''
          \<or> topic0 = getEventTopic deps ''NonceIncremented'')"

definition wellFormedKnown :: "Deps \<Rightarrow> Log \<Rightarrow> bool" where
  "wellFormedKnown deps log = (knownTopic deps log \<and> \<not> malformed deps log)"

definition domainEventCount :: "Parsed \<Rightarrow> nat" where
  "domainEventCount p =
     length (cancelEvents p) + length (fillEvents p) + length (bulkCancelEvents p)"

section \<open>syncCallback: ledger, queues and the orders table\<close>

record Order =
  o_hash :: string
  o_kind :: string
  o_maker :: string
  o_nonce :: "nat option"
  o_status :: string

text \<open>
  The ledger of cancel and fill events (each stored with its protocol kind), the orders
  table and the two queues that the callback writes to.
\<close>

record Store =
  cancel_events :: "(string \<times> CancelEvent) list"
  fill_events :: "(string \<times> FillEvent) list"
  orders :: "Order list"
  ordersUpdateByHashQueue :: "HashInfo list"
  fillsHandleQueue :: "FillInfo list"

text \<open>
  Modelled from the spec: \<^verbatim>\<open>addCancelEvents\<close> and \<^verbatim>\<open>addFillEvents\<close> (modules
  \<^verbatim>\<open>@/events/common/cancels\<close> and \<^verbatim>\<open>@/events/common/fills\<close>) are missing. Section 4.4:
  \<^verbatim>\<open>append(protocolKind, events)\<close> inserts the events.
\<close>

definition addCancelEvents :: "string \<Rightarrow> CancelEvent list \<Rightarrow> Store \<Rightarrow> Store" where
  "addCancelEvents kind events st =
     st\<lparr>cancel_events := cancel_events st @ map (\<lambda>e. (kind, e)) events\<rparr>"

definition addFillEvents :: "string \<Rightarrow> FillEvent list \<Rightarrow> Store \<Rightarrow> Store" where
  "addFillEvents kind events st =
     st\<lparr>fill_events := fill_events st @ map (\<lambda>e. (kind, e)) events\<rparr>"

text \<open>
  Modelled from the spec: \<^verbatim>\<open>addToOrdersUpdateByHashQueue\<close> and \<^verbatim>\<open>addToFillsHandleQueue\<close>
  (modules \<^verbatim>\<open>@/jobs/orders-update\<close> and \<^verbatim>\<open>@/jobs/fills-handle\<close>) are missing. Section 3: an
  enqueue without a job id creates a distinct item for each payload.
\<close>

definition addToOrdersUpdateByHashQueue :: "HashInfo list \<Rightarrow> Store \<Rightarrow> Store" where
  "addToOrdersUpdateByHashQueue infos st =
     st\<lparr>ordersUpdateByHashQueue := ordersUpdateByHashQueue st @ infos\<rparr>"

definition addToFillsHandleQueue :: "FillInfo list \<Rightarrow> Store \<Rightarrow> Store" where
  "addToFillsHandleQueue infos st =
     st\<lparr>fillsHandleQueue := fillsHandleQueue st @ infos\<rparr>"

text \<open>
  Modelled from the spec: \<^verbatim>\<open>removeCancelEvents\<close> and \<^verbatim>\<open>removeFillEvents\<close> (modules
  \<^verbatim>\<open>@/events/common/cancels\<close> and \<^verbatim>\<open>@/events/common/fills\<close>) are missing. Section 4.4:
  \<^verbatim>\<open>removeForBlock(blockHash)\<close> deletes every cancel/fill event whose BaseEventParams block
  hash equals the given hash. Section 2: the removal operation itself re-enqueues the
  affected orders for reconciliation. Section 3: a reconciliation item is \<^verbatim>\<open>{context, hash}\<close>
  with the context \<^verbatim>\<open>transactionHash-logIndex\<close>; the item for an order of a removed event
  takes the context of that event.
\<close>

definition eventContext :: "BaseEventParams \<Rightarrow> string" where
  "eventContext baseParams = bp_txHash baseParams @ ''-'' @ toString (bp_logIndex baseParams)"

definition removeCancelEvents :: "string \<Rightarrow> Store \<Rightarrow> Store" where
  "removeCancelEvents blockHash st =
     (let removed =
            filter (\<lambda>(kind, e). bp_blockHash (ce_baseParams e) = blockHash) (cancel_events st)
      in addToOrdersUpdateByHashQueue
           (map (\<lambda>(kind, e).
                   \<lparr>hi_context = eventContext (ce_baseParams e), hi_hash = ce_orderHash e\<rparr>)
              removed)
           (st\<lparr>cancel_events :=
                 filter (\<lambda>(kind, e). bp_blockHash (ce_baseParams e) \<noteq> blockHash)
                   (cancel_events st)\<rparr>))"

definition removeFillEvents :: "string \<Rightarrow> Store \<Rightarrow> Store" where
  "removeFillEvents blockHash st =
     (let removed =
            filter (\<lambda>(kind, e). bp_blockHash (fe_baseParams e) = blockHash) (fill_events st)
      in addToOrdersUpdateByHashQueue
           (concat (map (\<lambda>(kind, e).
                   [\<lparr>hi_context = eventContext (fe_baseParams e), hi_hash = fe_buyHash e\<rparr>,
                    \<lparr>hi_context = eventContext (fe_baseParams e), hi_hash = fe_sellHash e\<rparr>])
              removed))
           (st\<lparr>fill_events :=
                 filter (\<lambda>(kind, e). bp_blockHash (fe_baseParams e) \<noteq> blockHash)
                   (fill_events st)\<rparr>))"

text \<open>
  An \<^verbatim>\<open>update "orders" set ... where ...\<close> statement followed by one trailing clause: the
  keyword of the clause and the column it names. The database server runs the update and
  hands back the named column of the updated rows when the keyword is \<^verbatim>\<open>returning\<close>; a
  statement with any other word in that place is rejected with a syntax error at that
  word, and \<^verbatim>\<open>db.manyOrNone\<close> rejects.
\<close>

record UpdateStmt =
  upd_set :: "Order \<Rightarrow> Order"
  upd_where :: "Order \<Rightarrow> bool"
  upd_tailKeyword :: string
  upd_tailColumn :: "Order \<Rightarrow> string"

definition manyOrNone :: "UpdateStmt \<Rightarrow> Order list \<Rightarrow> error + (Order list \<times> string list)" where
  "manyOrNone stmt rows =
     (if upd_tailKeyword stmt = ''returning'' then
        Inr (map (\<lambda>r. if upd_where stmt r then upd_set stmt r else r) rows,
             map (\<lambda>r. upd_tailColumn stmt (upd_set stmt r)) (filter (upd_where stmt) rows))
      else Inl (SyntaxError (upd_tailKeyword stmt)))"

text \<open>
  The statement of the bulk-cancel loop, as its text reads:
  \<^verbatim>\<open>update "orders" set "status" = 'cancelled' where "kind" = 'wyvern-v2.3'
  and "maker" = $/maker/ and "nonce" < $/nonce/
  and ("status" = 'valid' or "status" = 'no-balance') return "hash"\<close>.
  A comparison with a NULL nonce selects nothing.
\<close>

definition bulkCancelStmt :: "string \<Rightarrow> string \<Rightarrow> UpdateStmt" where
  "bulkCancelStmt maker nonce =
     \<lparr>upd_set = (\<lambda>r. r\<lparr>o_status := ''cancelled''\<rparr>),
      upd_where = (\<lambda>r.
         o_kind r = ''wyvern-v2.3''
         \<and> o_maker r = maker
         \<and> (case o_nonce r of
              None \<Rightarrow> False
            | Some n \<Rightarrow> (case numericOfString nonce of None \<Rightarrow> False | Some k \<Rightarrow> n < k))
         \<and> (o_status r = ''valid'' \<or> o_status r = ''no-balance'')),
      upd_tailKeyword = ''return'',
      upd_tailColumn = o_hash\<rparr>"

text \<open>
  The loop over \<^verbatim>\<open>bulkCancelEvents\<close>. A rejected \<^verbatim>\<open>await\<close> ends the callback with the error;
  what was written before stays written.
\<close>

fun bulkCancelLoop :: "BulkCancelEvent list \<Rightarrow> Store \<Rightarrow> error option \<times> Store" where
  "bulkCancelLoop [] st = (None, st)"
| "bulkCancelLoop (ev # evs) st =
     (case manyOrNone (bulkCancelStmt (bc_maker ev) (bc_newNonce ev)) (orders st) of
        Inl e \<Rightarrow> (Some e, st)
      | Inr (rows, hashes) \<Rightarrow>
          bulkCancelLoop evs
            (addToOrdersUpdateByHashQueue
               (map (\<lambda>hash. \<lparr>hi_context = bc_context ev, hi_hash = hash\<rparr>) hashes)
               (st\<lparr>orders := rows\<rparr>)))"

text \<open>
  \<^verbatim>\<open>syncCallback(logs, backfill?)\<close>: the optional flag is \<open>None\<close> when the caller leaves
  it out, and \<^verbatim>\<open>!backfill\<close> holds unless it is \<^verbatim>\<open>true\<close>. The result is the error the
  returned promise rejects with, if any, and the store after the call.
\<close>

definition syncCallback ::
  "Config \<Rightarrow> Deps \<Rightarrow> Log list \<Rightarrow> bool option \<Rightarrow> Store \<Rightarrow> error option \<times> Store" where
  "syncCallback config deps logs backfill st =
     (let p = parseLogs deps logs emptyParsed;
          st1 = addCancelEvents ''wyvern-v2'' (cancelEvents p) st;
          st2 = addFillEvents ''wyvern-v2'' (fillEvents p) st1
      in if backfill \<noteq> Some True then
           if acceptOrders config then
             bulkCancelLoop (bulkCancelEvents p)
               (addToFillsHandleQueue (fillInfos p)
                  (addToOrdersUpdateByHashQueue (hashInfos p) st2))
           else (None, st2)
         else (None, st2))"

definition fixCallback :: "string \<Rightarrow> Store \<Rightarrow> Store" where
  "fixCallback blockHash st = removeFillEvents blockHash (removeCancelEvents blockHash st)"

text \<open>The order hashes that the ledger entries of one block refer to.\<close>

definition referencedHashes :: "string \<Rightarrow> Store \<Rightarrow> string list" where
  "referencedHashes blockHash st =
     map (\<lambda>(kind, e). ce_orderHash e)
       (filter (\<lambda>(kind, e). bp_blockHash (ce_baseParams e) = blockHash) (cancel_events st))
     @ concat (map (\<lambda>(kind, e). [fe_buyHash e, fe_sellHash e])
       (filter (\<lambda>(kind, e). bp_blockHash (fe_baseParams e) = blockHash) (fill_events st)))"

section \<open>Predicates of the statements about syncCallback\<close>

text \<open>Every order hash and every maker or taker address in the five arrays is in lower case.\<close>

definition lowerCased :: "Parsed \<Rightarrow> bool" where
  "lowerCased p =
     (list_all (\<lambda>e. isLowerCase (ce_orderHash e)) (cancelEvents p)
      \<and> list_all (\<lambda>e. isLowerCase (fe_buyHash e) \<and> isLowerCase (fe_sellHash e)
            \<and> isLowerCase (fe_maker e) \<and> isLowerCase (fe_taker e)) (fillEvents p)
      \<and> list_all (\<lambda>e. isLowerCase (bc_maker e)) (bulkCancelEvents p)
      \<and> list_all (\<lambda>i. isLowerCase (hi_hash i)) (hashInfos p)
      \<and> list_all (\<lambda>i. isLowerCase (fi_buyHash i) \<and> isLowerCase (fi_sellHash i)) (fillInfos p))"

text \<open>
  The orders that the bulk-cancel statement for an event selects, and the relation between
  an order before and after a call that either keeps it or cancels it because an event of
  the list selects it.
\<close>

definition bulkCancelSelects :: "BulkCancelEvent \<Rightarrow> Order \<Rightarrow> bool" where
  "bulkCancelSelects ev r =
     (o_kind r = ''wyvern-v2.3''
      \<and> o_maker r = bc_maker ev
      \<and> (case o_nonce r of
            None \<Rightarrow> False
          | Some n \<Rightarrow> (case numericOfString (bc_newNonce ev) of None \<Rightarrow> False | Some k \<Rightarrow> n < k))
      \<and> (o_status r = ''valid'' \<or> o_status r = ''no-balance''))"

definition keptOrCancelled :: "BulkCancelEvent list \<Rightarrow> Order \<Rightarrow> Order \<Rightarrow> bool" where
  "keptOrCancelled evs r r' =
     (r' = r \<or> (r' = r\<lparr>o_status := ''cancelled''\<rparr> \<and> list_ex (\<lambda>ev. bulkCancelSelects ev r) evs))"

section \<open>jobs/order-updates/remove-buy-order-events.ts\<close>

definition QUEUE_NAME :: string where
  "QUEUE_NAME = ''remove-buy-order-events-queue''"

text \<open>
  The columns of \<^verbatim>\<open>orders\<close> and \<^verbatim>\<open>order_events\<close> that the worker reads. The creation time
  is the epoch value that the query extracts and \<^verbatim>\<open>to_timestamp\<close> reads back, taken as
  exact. Row values compare lexicographically, as pairs do.
\<close>

record OrderRow =
  or_id :: string
  or_created_at :: nat
  or_side :: string

record OrderEventRow =
  oe_order_id :: string
  oe_kind :: string

record CursorInfo =
  cur_id :: string
  cur_createdAt :: nat

text \<open>
  The pending jobs of the queue, each with the \<^verbatim>\<open>cursor\<close> of its payload. \<^verbatim>\<open>addToQueue\<close>
  gives a job a fresh random name and no job id, so every call adds a job.
\<close>

record SweepState =
  order_events :: "OrderEventRow list"
  sweepQueue :: "CursorInfo option list"

definition sweep_addToQueue :: "CursorInfo option \<Rightarrow> SweepState \<Rightarrow> SweepState" where
  "sweep_addToQueue cursor st = st\<lparr>sweepQueue := sweepQueue st @ [cursor]\<rparr>"

definition continuationFilter :: "CursorInfo option \<Rightarrow> OrderRow \<Rightarrow> bool" where
  "continuationFilter cursor r =
     (case cursor of
        None \<Rightarrow> True
      | Some c \<Rightarrow> (or_created_at r, or_id r) < (cur_createdAt c, cur_id c))"

definition selectBuyOrders :: "OrderRow list \<Rightarrow> CursorInfo option \<Rightarrow> nat \<Rightarrow> OrderRow list" where
  "selectBuyOrders rows cursor limit =
     limitRows limit
       (orderByDesc (\<lambda>r. (or_created_at r, or_id r))
          (filter (\<lambda>r. or_side r = ''buy'' \<and> continuationFilter cursor r) rows))"

text \<open>
  \<^verbatim>\<open>Array.prototype.join\<close>, and the handler. The ids of the page go into the \<^verbatim>\<open>DELETE\<close> as
  one joined string, so its \<^verbatim>\<open>IN\<close> list has that string as its only member.
\<close>

fun join :: "string \<Rightarrow> string list \<Rightarrow> string" where
  "join sep [] = []"
| "join sep [x] = x"
| "join sep (x # y # ys) = x @ sep @ join sep (y # ys)"

definition worker :: "OrderRow list \<Rightarrow> CursorInfo option \<Rightarrow> SweepState \<Rightarrow> SweepState" where
  "worker rows cursor st =
     (let limit = 1;
          buyOrders = selectBuyOrders rows cursor limit
      in if length buyOrders > 0 then
           (let orderIds = join '','' (map or_id buyOrders);
                st1 = st\<lparr>order_events := filter (\<lambda>e. oe_order_id e \<noteq> orderIds) (order_events st)\<rparr>
            in if length buyOrders = limit then
                 (let lastBuyOrder = last buyOrders;
                      nextCursor = \<lparr>cur_id = or_id lastBuyOrder,
                                    cur_createdAt = or_created_at lastBuyOrder\<rparr>
                  in sweep_addToQueue (Some nextCursor) st1)
               else st1)
         else st)"

text \<open>
  The queue's worker runs with concurrency 1: it takes the oldest pending job and runs the
  handler on it. \<open>invocations n\<close> is the state after \<open>n\<close> handler invocations.
\<close>

definition processNext :: "OrderRow list \<Rightarrow> SweepState \<Rightarrow> SweepState" where
  "processNext rows st =
     (case sweepQueue st of
        [] \<Rightarrow> st
      | cursor # rest \<Rightarrow> worker rows cursor (st\<lparr>sweepQueue := rest\<rparr>))"

fun invocations :: "OrderRow list \<Rightarrow> nat \<Rightarrow> SweepState \<Rightarrow> SweepState" where
  "invocations rows 0 st = st"
| "invocations rows (Suc n) st = invocations rows n (processNext rows st)"

definition buyOrderRows :: "OrderRow list \<Rightarrow> OrderRow list" where
  "buyOrderRows rows = filter (\<lambda>r. or_side r = ''buy'') rows"

text \<open>The rows still ahead of a cursor: the buy orders that its continuation filter lets through.\<close>

definition remaining :: "OrderRow list \<Rightarrow> CursorInfo option \<Rightarrow> OrderRow list" where
  "remaining rows cursor = filter (continuationFilter cursor) (buyOrderRows rows)"

text \<open>
  The sort key of the query, the cursor that the handler builds from a row, and the buy
  orders in the order of the query without a cursor.
\<close>

definition sweepKey :: "OrderRow \<Rightarrow> nat \<times> string" where
  "sweepKey r = (or_created_at r, or_id r)"

definition cursorOf :: "OrderRow \<Rightarrow> CursorInfo" where
  "cursorOf r = \<lparr>cur_id = or_id r, cur_createdAt = or_created_at r\<rparr>"

definition sweepOrder :: "OrderRow list \<Rightarrow> OrderRow list" where
  "sweepOrder rows = rev (sort_key sweepKey (buyOrderRows rows))"

text \<open>
  The cluster lock: the keys held, each with the time to live (in milliseconds) it was
  taken with. \<^verbatim>\<open>redlock.acquire\<close> rejects when one of the keys is held.
\<close>

type_synonym Locks = "string \<Rightarrow> nat option"

definition redlock_acquire :: "string list \<Rightarrow> nat \<Rightarrow> Locks \<Rightarrow> error + Locks" where
  "redlock_acquire keys ttl locks =
     (if list_ex (\<lambda>k. locks k \<noteq> None) keys then Inl LockError
      else Inr (fold (\<lambda>k l. l(k \<mapsto> ttl)) keys locks))"

text \<open>
  The start-up code of the module: \<^verbatim>\<open>redlock.acquire(...).then(addToQueue).catch(skip)\<close>
  under \<^verbatim>\<open>config.doBackgroundWork\<close>. The first component is the error that leaves the
  promise chain.
\<close>

definition bootstrap :: "Config \<Rightarrow> Locks \<times> SweepState \<Rightarrow> error option \<times> Locks \<times> SweepState" where
  "bootstrap config s =
     (case s of (locks, st) \<Rightarrow>
        if doBackgroundWork config then
          (case redlock_acquire [QUEUE_NAME @ ''-lock''] (60 * 60 * 24 * 30 * 1000) locks of
             Inr locks' \<Rightarrow> (None, locks', sweep_addToQueue None st)
           | Inl e \<Rightarrow> (None, locks, st))
        else (None, locks, st))"

section \<open>jobs/update-attribute/resync-attribute-cache.ts\<close>

text \<open>
  A job of the queue: its name, its id, its payload and its delay in milliseconds.
  \<^verbatim>\<open>queue.add\<close> with a \<^verbatim>\<open>jobId\<close> that a job of the queue already has adds nothing.
\<close>

record ResyncJob =
  rj_name :: string
  rj_jobId :: string
  rj_contract :: string
  rj_tokenId :: string
  rj_delay :: nat

definition queueAdd :: "ResyncJob \<Rightarrow> ResyncJob list \<Rightarrow> ResyncJob list" where
  "queueAdd job q = (if list_ex (\<lambda>j. rj_jobId j = rj_jobId job) q then q else q @ [job])"

text \<open>\<^verbatim>\<open>addToQueue(contract, tokenId, delay = 60 * 60 * 1000)\<close>: \<open>None\<close> is the omitted delay.\<close>

definition resync_addToQueue ::
  "string \<Rightarrow> string \<Rightarrow> nat option \<Rightarrow> ResyncJob list \<Rightarrow> ResyncJob list" where
  "resync_addToQueue contract tokenId delay q =
     (let token = contract @ '':'' @ tokenId;
          delay' = (case delay of None \<Rightarrow> 60 * 60 * 1000 | Some d \<Rightarrow> d)
      in queueAdd
           \<lparr>rj_name = token, rj_jobId = token, rj_contract = contract, rj_tokenId = tokenId,
            rj_delay = delay'\<rparr> q)"

section \<open>A concrete decoder and batch\<close>

text \<open>
  A decoder for evaluating the callback on concrete logs: the topic of an event is its
  name, the indexed arguments follow it in \<open>log_topics\<close>, the other arguments are
  read from \<open>log_data\<close> (hashes of four characters, then a decimal number), and a log
  without a transaction hash, with the wrong number of topics or without its number does
  not decode.
\<close>

definition exampleDeps :: Deps where
  "exampleDeps =
     \<lparr>parseEvent = (\<lambda>log.
        if log_transactionHash log = [] then Inl (DecodeError ''transactionHash'')
        else Inr \<lparr>bp_address = log_address log, bp_txHash = log_transactionHash log,
                  bp_logIndex = log_logIndex log, bp_batchIndex = 1,
                  bp_block = log_blockNumber log, bp_blockHash = log_blockHash log,
                  bp_timestamp = 0\<rparr>),
      getEventTopic = (\<lambda>name. name),
      parseLog = (\<lambda>log.
        case log_topics log of
          [t, x] \<Rightarrow>
            if t = ''OrderCancelled'' then Inr (OrderCancelledArgs x)
            else if t = ''NonceIncremented'' then
              (case numericOfString (log_data log) of
                 None \<Rightarrow> Inl (DecodeError ''data'')
               | Some n \<Rightarrow> Inr (NonceIncrementedArgs x n))
            else Inl (DecodeError ''topics'')
        | [t, m, k, md] \<Rightarrow>
            if t = ''OrdersMatched'' then
              (case numericOfString (drop 8 (log_data log)) of
                 None \<Rightarrow> Inl (DecodeError ''data'')
               | Some p \<Rightarrow>
                   Inr (OrdersMatchedArgs (take 4 (log_data log)) (take 4 (drop 4 (log_data log)))
                          m k p md))
            else Inl (DecodeError ''topics'')
        | _ \<Rightarrow> Inl (DecodeError ''topics''))\<rparr>"

definition exampleLog :: "string list \<Rightarrow> string \<Rightarrow> nat \<Rightarrow> Log" where
  "exampleLog topics d i =
     \<lparr>log_address = ''0xC0'', log_topics = topics, log_data = d, log_blockNumber = 100,
      log_blockHash = ''0xb1'', log_transactionHash = ''0xt1'', log_logIndex = i\<rparr>"

text \<open>
  Ten logs: nine that decode (eight cancellations and one match) and, at index 3, one
  \<^verbatim>\<open>OrderCancelled\<close> log without its indexed hash.
\<close>

definition exampleBatch :: "Log list" where
  "exampleBatch =
     [exampleLog [''OrderCancelled'', ''0xAA01''] [] 0,
      exampleLog [''OrderCancelled'', ''0xAA02''] [] 1,
      exampleLog [''OrderCancelled'', ''0xAA03''] [] 2,
      exampleLog [''OrderCancelled''] [] 3,
      exampleLog [''OrderCancelled'', ''0xAA04''] [] 4,
      exampleLog [''OrderCancelled'', ''0xAA05''] [] 5,
      exampleLog [''OrdersMatched'', ''0xM1'', ''0xT1'', ''0x00''] ''0xB10xS125'' 6,
      exampleLog [''OrderCancelled'', ''0xAA07''] [] 7,
      exampleLog [''OrderCancelled'', ''0xAA08''] [] 8,
      exampleLog [''OrderCancelled'', ''0xAA09''] [] 9]"

text \<open>
  A store with one valid order, a log that raises the nonce floor of its maker to 5, and a
  ledger with entries of two blocks.
\<close>

definition exampleStore :: Store where
  "exampleStore =
     \<lparr>cancel_events = [], fill_events = [],
      orders = [\<lparr>o_hash = ''0xh1'', o_kind = ''wyvern-v2.3'', o_maker = ''0xmm'',
                 o_nonce = Some 3, o_status = ''valid''\<rparr>],
      ordersUpdateByHashQueue = [], fillsHandleQueue = []\<rparr>"

definition exampleBulkCancelLog :: Log where
  "exampleBulkCancelLog = exampleLog [''NonceIncremented'', ''0xMM''] ''5'' 0"

text \<open>
  A live batch of an \<^verbatim>\<open>OrderCancelled\<close> log without its indexed hash and the log that raises
  the nonce floor.
\<close>

definition exampleMixedBatch :: "Log list" where
  "exampleMixedBatch = [exampleLog [''OrderCancelled''] [] 3, exampleBulkCancelLog]"

definition exampleLedger :: Store where
  "exampleLedger =
     \<lparr>cancel_events =
        [(''wyvern-v2'', \<lparr>ce_orderHash = ''0xh1'', ce_baseParams =
            \<lparr>bp_address = ''0xc0'', bp_txHash = ''0xt1'', bp_logIndex = 0, bp_batchIndex = 1,
             bp_block = 100, bp_blockHash = ''0xb1'', bp_timestamp = 0\<rparr>\<rparr>),
         (''wyvern-v2'', \<lparr>ce_orderHash = ''0xh2'', ce_baseParams =
            \<lparr>bp_address = ''0xc0'', bp_txHash = ''0xt2'', bp_logIndex = 0, bp_batchIndex = 1,
             bp_block = 101, bp_blockHash = ''0xb2'', bp_timestamp = 0\<rparr>\<rparr>)],
      fill_events =
        [(''wyvern-v2'', \<lparr>fe_buyHash = ''0xh3'', fe_sellHash = ''0xh4'', fe_maker = ''0xmm'',
            fe_taker = ''0xtt'', fe_price = ''25'', fe_baseParams =
            \<lparr>bp_address = ''0xc0'', bp_txHash = ''0xt1'', bp_logIndex = 1, bp_batchIndex = 1,
             bp_block = 100, bp_blockHash = ''0xb1'', bp_timestamp = 0\<rparr>\<rparr>)],
      orders = [\<lparr>o_hash = ''0xh1'', o_kind = ''wyvern-v2.3'', o_maker = ''0xmm'',
                 o_nonce = Some 3, o_status = ''cancelled''\<rparr>],
      ordersUpdateByHashQueue = [], fillsHandleQueue = []\<rparr>"

text \<open>
  Four orders, three of them buy orders and two of these created at the same time, with
  their order events, and the queue after the start-up code has enqueued the first job.
\<close>

definition exampleOrders :: "OrderRow list" where
  "exampleOrders =
     [\<lparr>or_id = ''0xo1'', or_created_at = 10, or_side = ''buy''\<rparr>,
      \<lparr>or_id = ''0xo2'', or_created_at = 20, or_side = ''sell''\<rparr>,
      \<lparr>or_id = ''0xo3'', or_created_at = 20, or_side = ''buy''\<rparr>,
      \<lparr>or_id = ''0xo4'', or_created_at = 10, or_side = ''buy''\<rparr>]"

definition exampleSweep :: SweepState where
  "exampleSweep =
     \<lparr>order_events =
        [\<lparr>oe_order_id = ''0xo1'', oe_kind = ''new-order''\<rparr>,
         \<lparr>oe_order_id = ''0xo2'', oe_kind = ''new-order''\<rparr>,
         \<lparr>oe_order_id = ''0xo3'', oe_kind = ''new-order''\<rparr>,
         \<lparr>oe_order_id = ''0xo4'', oe_kind = ''new-order''\<rparr>,
         \<lparr>oe_order_id = ''0xo1'', oe_kind = ''cancel''\<rparr>],
      sweepQueue = [None]\<rparr>"

section \<open>Properties of getMinNonce\<close>

lemma sorted_last_Max:
  fixes zs :: "'a::linorder list"
  assumes "sorted zs" and "zs \<noteq> []"
  shows "last zs = Max (set zs)"
proof -
  obtain bs l where zs: "zs = bs @ [l]"
    using assms(2) by (cases zs rule: rev_cases) auto
  have "\<forall>x\<in>set bs. x \<le> l"
    using assms(1) unfolding zs by (simp add: sorted_append)
  then have "Max (set zs) = l"
    unfolding zs by (intro Max_eqI) auto
  then show ?thesis by (simp add: zs)
qed

lemma last_sort_key_Max:
  assumes "xs \<noteq> []"
  shows "k (last (sort_key k xs)) = Max (k ` set xs)"
proof -
  let ?ys = "sort_key k xs"
  have ne: "?ys \<noteq> []"
    using assms by (metis length_sort length_0_conv)
  have "last (map k ?ys) = Max (set (map k ?ys))"
    using ne by (intro sorted_last_Max) simp_all
  then show ?thesis using ne by (simp add: last_map)
qed

lemma take_1_rev:
  "take 1 (rev ys) = (if ys = [] then [] else [last ys])"
  by (cases ys rule: rev_cases) auto

lemma getMinNonce_last:
  "getMinNonce config toBuffer tbl orderKind maker =
     (let m = filter (\<lambda>r. bcr_order_kind r = orderKind \<and> bcr_maker r = toBuffer maker) tbl in
      if m = [] then 0
      else bcr_min_nonce (last (sort_key bcr_min_nonce m))
           + (if chainId config = 4 \<and> orderKind = ''wyvern-v2.3'' then 1 else 0))"
proof -
  define m where "m = filter (\<lambda>r. bcr_order_kind r = orderKind \<and> bcr_maker r = toBuffer maker) tbl"
  have e: "(sort_key bcr_min_nonce m = []) = (m = [])"
    by (metis length_sort length_0_conv)
  have "getMinNonce config toBuffer tbl orderKind maker =
      (if chainId config = 4 \<and> orderKind = ''wyvern-v2.3'' then
         coalesce (scalarSubquery
           (map (\<lambda>r. bcr_min_nonce r + 1) (take 1 (rev (sort_key bcr_min_nonce m))))) 0
       else coalesce (scalarSubquery
           (map bcr_min_nonce (take 1 (rev (sort_key bcr_min_nonce m))))) 0)"
    unfolding getMinNonce_def m_def[symmetric] Let_def orderByDesc_def limitRows_def ..
  also have "\<dots> = (if m = [] then 0
      else bcr_min_nonce (last (sort_key bcr_min_nonce m))
           + (if chainId config = 4 \<and> orderKind = ''wyvern-v2.3'' then 1 else 0))"
    unfolding take_1_rev e by (simp add: scalarSubquery_def coalesce_def)
  finally show ?thesis unfolding m_def[symmetric] Let_def .
qed

lemma recordedNonces_list:
  "recordedNonces toBuffer tbl orderKind maker =
     set (map bcr_min_nonce
       (filter (\<lambda>r. bcr_order_kind r = orderKind \<and> bcr_maker r = toBuffer maker) tbl))"
  by (simp add: recordedNonces_def)

text \<open>
  Claim C1. \<open>getMinNonce\<close> returns zero when no bulk-cancel nonce is recorded for the
  (order kind, maker) pair. Otherwise it returns the maximum recorded nonce, plus one
  exactly when the chain id is 4 and the order kind is \<^verbatim>\<open>wyvern-v2.3\<close>, and unadjusted for
  every other chain and order kind.
\<close>

theorem getMinNonce_max:
  "getMinNonce config toBuffer tbl orderKind maker =
     (if recordedNonces toBuffer tbl orderKind maker = {} then 0
      else Max (recordedNonces toBuffer tbl orderKind maker)
           + (if chainId config = 4 \<and> orderKind = ''wyvern-v2.3'' then 1 else 0))"
proof -
  define m where "m = filter (\<lambda>r. bcr_order_kind r = orderKind \<and> bcr_maker r = toBuffer maker) tbl"
  have rn: "recordedNonces toBuffer tbl orderKind maker = bcr_min_nonce ` set m"
    by (simp add: recordedNonces_def m_def)
  have e: "(bcr_min_nonce ` set m = {}) = (m = [])" by simp
  have mx: "m \<noteq> [] \<Longrightarrow> bcr_min_nonce (last (sort_key bcr_min_nonce m)) = Max (bcr_min_nonce ` set m)"
    by (rule last_sort_key_Max)
  show ?thesis
    unfolding getMinNonce_last rn m_def[symmetric] Let_def e using mx by simp
qed

text \<open>
  Three recorded nonces 3, 7 and 5 for one maker, next to rows of another maker and of
  another order kind: chain 4 gives 8 for \<^verbatim>\<open>wyvern-v2.3\<close>, chain 1 gives 7, chain 4 gives 11
  for another order kind, and a maker without a row gives 0.
\<close>

theorem getMinNonce_max_witness:
  "getMinNonce \<lparr>chainId = 4, acceptOrders = True, doBackgroundWork = True\<rparr> (drop 2)
     [\<lparr>bcr_order_kind = ''wyvern-v2.3'', bcr_maker = ''aa'', bcr_min_nonce = 3\<rparr>,
      \<lparr>bcr_order_kind = ''wyvern-v2.3'', bcr_maker = ''aa'', bcr_min_nonce = 7\<rparr>,
      \<lparr>bcr_order_kind = ''wyvern-v2.3'', bcr_maker = ''aa'', bcr_min_nonce = 5\<rparr>,
      \<lparr>bcr_order_kind = ''wyvern-v2.3'', bcr_maker = ''bb'', bcr_min_nonce = 9\<rparr>,
      \<lparr>bcr_order_kind = ''seaport'', bcr_maker = ''aa'', bcr_min_nonce = 11\<rparr>]
     ''wyvern-v2.3'' ''0xaa'' = 8
   \<and> getMinNonce \<lparr>chainId = 1, acceptOrders = True, doBackgroundWork = True\<rparr> (drop 2)
     [\<lparr>bcr_order_kind = ''wyvern-v2.3'', bcr_maker = ''aa'', bcr_min_nonce = 3\<rparr>,
      \<lparr>bcr_order_kind = ''wyvern-v2.3'', bcr_maker = ''aa'', bcr_min_nonce = 7\<rparr>,
      \<lparr>bcr_order_kind = ''wyvern-v2.3'', bcr_maker = ''aa'', bcr_min_nonce = 5\<rparr>,
      \<lparr>bcr_order_kind = ''wyvern-v2.3'', bcr_maker = ''bb'', bcr_min_nonce = 9\<rparr>,
      \<lparr>bcr_order_kind = ''seaport'', bcr_maker = ''aa'', bcr_min_nonce = 11\<rparr>]
     ''wyvern-v2.3'' ''0xaa'' = 7
   \<and> getMinNonce \<lparr>chainId = 4, acceptOrders = True, doBackgroundWork = True\<rparr> (drop 2)
     [\<lparr>bcr_order_kind = ''wyvern-v2.3'', bcr_maker = ''aa'', bcr_min_nonce = 3\<rparr>,
      \<lparr>bcr_order_kind = ''seaport'', bcr_maker = ''aa'', bcr_min_nonce = 11\<rparr>]
     ''seaport'' ''0xaa'' = 11
   \<and> getMinNonce \<lparr>chainId = 4, acceptOrders = True, doBackgroundWork = True\<rparr> (drop 2)
     [\<lparr>bcr_order_kind = ''wyvern-v2.3'', bcr_maker = ''aa'', bcr_min_nonce = 3\<rparr>]
     ''wyvern-v2.3'' ''0xcc'' = 0"
  unfolding getMinNonce_max by (simp add: recordedNonces_list)

section \<open>Properties of the loop over the logs\<close>

lemma tryBody_cases:
  "tryBody deps log acc =
     (case parseEvent deps log of
        Inl e \<Rightarrow> Inl e
      | Inr baseParams \<Rightarrow>
          (case log_topics log of
             [] \<Rightarrow> Inr acc
           | topic0 # ts \<Rightarrow>
               if topic0 = getEventTopic deps ''OrderCancelled'' then
                 (case parseLog deps log of
                    Inl e \<Rightarrow> Inl e
                  | Inr args \<Rightarrow> caseOrderCancelled
                      (bp_txHash baseParams @ ''-'' @ toString (bp_logIndex baseParams)) baseParams acc args)
               else if topic0 = getEventTopic deps ''OrdersMatched'' then
                 (case parseLog deps log of
                    Inl e \<Rightarrow> Inl e
                  | Inr args \<Rightarrow> caseOrdersMatched
                      (bp_txHash baseParams @ ''-'' @ toString (bp_logIndex baseParams)) baseParams acc args)
               else if topic0 = getEventTopic deps ''NonceIncremented'' then
                 (case parseLog deps log of
                    Inl e \<Rightarrow> Inl e
                  | Inr args \<Rightarrow> caseNonceIncremented
                      (bp_txHash baseParams @ ''-'' @ toString (bp_logIndex baseParams)) baseParams acc args)
               else Inr acc))"
  unfolding tryBody_def Let_def ..

lemma case_isl:
  "isl (caseOrderCancelled c b acc args) = (\<not> argsOf ''OrderCancelled'' args)"
  "isl (caseOrdersMatched c b acc args) = (\<not> argsOf ''OrdersMatched'' args)"
  "isl (caseNonceIncremented c b acc args) = (\<not> argsOf ''NonceIncremented'' args)"
  by (cases args; simp add: Let_def)+

text \<open>The body of the \<^verbatim>\<open>try\<close> block throws exactly on the malformed logs.\<close>

lemma malformed_isl: "malformed deps log = isl (tryBody deps log acc)"
  unfolding tryBody_cases malformed_def switchCase_def
  by (simp add: case_isl split: sum.split list.split)

lemma appendParsed_empty [simp]: "appendParsed acc emptyParsed = acc" "appendParsed emptyParsed acc = acc"
  by (simp_all add: appendParsed_def emptyParsed_def)

lemma appendParsed_assoc: "appendParsed (appendParsed a b) c = appendParsed a (appendParsed b c)"
  by (simp add: appendParsed_def)

lemma caseOrderCancelled_append:
  "caseOrderCancelled c b acc args =
     (case caseOrderCancelled c b emptyParsed args of Inl e \<Rightarrow> Inl e | Inr p \<Rightarrow> Inr (appendParsed acc p))"
  by (cases args) (simp_all add: Let_def appendParsed_def emptyParsed_def)

lemma caseOrdersMatched_append:
  "caseOrdersMatched c b acc args =
     (case caseOrdersMatched c b emptyParsed args of Inl e \<Rightarrow> Inl e | Inr p \<Rightarrow> Inr (appendParsed acc p))"
  by (cases args) (simp_all add: Let_def appendParsed_def emptyParsed_def)

lemma caseNonceIncremented_append:
  "caseNonceIncremented c b acc args =
     (case caseNonceIncremented c b emptyParsed args of Inl e \<Rightarrow> Inl e | Inr p \<Rightarrow> Inr (appendParsed acc p))"
  by (cases args) (simp_all add: Let_def appendParsed_def emptyParsed_def)

lemma tryBody_append:
  "tryBody deps log acc =
     (case tryBody deps log emptyParsed of Inl e \<Rightarrow> Inl e | Inr p \<Rightarrow> Inr (appendParsed acc p))"
  unfolding tryBody_cases
  by (simp split: sum.split list.split
      add: caseOrderCancelled_append[of _ _ acc] caseOrdersMatched_append[of _ _ acc]
        caseNonceIncremented_append[of _ _ acc])

lemma parseLogs_append_acc:
  "parseLogs deps logs acc = appendParsed acc (parseLogs deps logs emptyParsed)"
proof (induction logs arbitrary: acc)
  case Nil
  show ?case by simp
next
  case (Cons log logs)
  show ?case
  proof (cases "tryBody deps log emptyParsed")
    case (Inl e)
    then have 1: "tryBody deps log acc = Inl e" by (subst tryBody_append) simp
    have 2: "acc\<lparr>loggedErrors := loggedErrors acc @ [e]\<rparr> = appendParsed acc (emptyParsed\<lparr>loggedErrors := [e]\<rparr>)"
      by (simp add: appendParsed_def emptyParsed_def)
    have 3: "emptyParsed\<lparr>loggedErrors := loggedErrors emptyParsed @ [e]\<rparr> = emptyParsed\<lparr>loggedErrors := [e]\<rparr>"
      by (simp add: emptyParsed_def)
    show ?thesis
      using Inl 1 Cons.IH[of "acc\<lparr>loggedErrors := loggedErrors acc @ [e]\<rparr>"]
        Cons.IH[of "emptyParsed\<lparr>loggedErrors := [e]\<rparr>"]
      by (simp add: 2 3 appendParsed_assoc)
  next
    case (Inr p)
    then have 1: "tryBody deps log acc = Inr (appendParsed acc p)" by (subst tryBody_append) simp
    show ?thesis
      using Inr 1 Cons.IH[of "appendParsed acc p"] Cons.IH[of p]
      by (simp add: appendParsed_assoc)
  qed
qed

lemma parseLogs_Cons:
  "parseLogs deps (log # logs) emptyParsed =
     appendParsed (logOutput deps log) (parseLogs deps logs emptyParsed)"
proof (cases "tryBody deps log emptyParsed")
  case (Inl e)
  have 3: "emptyParsed\<lparr>loggedErrors := loggedErrors emptyParsed @ [e]\<rparr> = emptyParsed\<lparr>loggedErrors := [e]\<rparr>"
    by (simp add: emptyParsed_def)
  show ?thesis using Inl parseLogs_append_acc[of deps logs "emptyParsed\<lparr>loggedErrors := [e]\<rparr>"]
    by (simp add: logOutput_def 3)
next
  case (Inr p)
  show ?thesis using Inr parseLogs_append_acc[of deps logs p]
    by (simp add: logOutput_def)
qed

lemma parseLogs_append:
  "parseLogs deps (xs @ ys) emptyParsed =
     appendParsed (parseLogs deps xs emptyParsed) (parseLogs deps ys emptyParsed)"
proof (induction xs)
  case Nil
  show ?case by simp
next
  case (Cons x xs)
  have "parseLogs deps ((x # xs) @ ys) emptyParsed = parseLogs deps (x # (xs @ ys)) emptyParsed" by simp
  also have "\<dots> = appendParsed (logOutput deps x) (parseLogs deps (xs @ ys) emptyParsed)"
    by (rule parseLogs_Cons)
  also have "\<dots> = appendParsed (appendParsed (logOutput deps x) (parseLogs deps xs emptyParsed)) (parseLogs deps ys emptyParsed)"
    by (simp add: Cons.IH appendParsed_assoc)
  also have "\<dots> = appendParsed (parseLogs deps (x # xs) emptyParsed) (parseLogs deps ys emptyParsed)"
    by (simp only: parseLogs_Cons)
  finally show ?case .
qed

lemma strip_append:
  "(appendParsed a b)\<lparr>loggedErrors := []\<rparr> =
     appendParsed (a\<lparr>loggedErrors := []\<rparr>) (b\<lparr>loggedErrors := []\<rparr>)"
  by (simp add: appendParsed_def)

lemma logOutput_malformed:
  "malformed deps log \<Longrightarrow> (logOutput deps log)\<lparr>loggedErrors := []\<rparr> = emptyParsed
     \<and> length (loggedErrors (logOutput deps log)) = 1"
  unfolding malformed_isl[of deps log emptyParsed] logOutput_def
  by (cases "tryBody deps log emptyParsed") (simp_all add: emptyParsed_def)

lemma caseOrderCancelled_out:
  "caseOrderCancelled c b emptyParsed args = Inr p \<Longrightarrow> loggedErrors p = [] \<and> domainEventCount p = 1"
  by (cases args) (auto simp: Let_def emptyParsed_def domainEventCount_def)

lemma caseOrdersMatched_out:
  "caseOrdersMatched c b emptyParsed args = Inr p \<Longrightarrow> loggedErrors p = [] \<and> domainEventCount p = 1"
  by (cases args) (auto simp: Let_def emptyParsed_def domainEventCount_def)

lemma caseNonceIncremented_out:
  "caseNonceIncremented c b emptyParsed args = Inr p \<Longrightarrow> loggedErrors p = [] \<and> domainEventCount p = 1"
  by (cases args) (auto simp: Let_def emptyParsed_def domainEventCount_def)

lemma emptyParsed_out: "loggedErrors emptyParsed = [] \<and> domainEventCount emptyParsed = 0"
  by (simp add: emptyParsed_def domainEventCount_def)

lemma tryBody_out:
  assumes "tryBody deps log emptyParsed = Inr p"
  shows "loggedErrors p = [] \<and> domainEventCount p = (if knownTopic deps log then 1 else 0)"
  using assms unfolding tryBody_cases knownTopic_def
  by (auto split: sum.splits list.splits if_splits
      dest: caseOrderCancelled_out caseOrdersMatched_out caseNonceIncremented_out
      simp: emptyParsed_out)

lemma logOutput_wellformed:
  assumes "\<not> malformed deps log"
  shows "loggedErrors (logOutput deps log) = []
     \<and> domainEventCount (logOutput deps log) = (if knownTopic deps log then 1 else 0)"
proof -
  obtain p where p: "tryBody deps log emptyParsed = Inr p"
    using assms unfolding malformed_isl[of deps log emptyParsed]
    by (cases "tryBody deps log emptyParsed") auto
  then have "logOutput deps log = p" by (simp add: logOutput_def)
  then show ?thesis using tryBody_out[OF p] by simp
qed

lemma domainEventCount_append:
  "domainEventCount (appendParsed a b) = domainEventCount a + domainEventCount b"
  by (simp add: appendParsed_def domainEventCount_def)

lemma domainEventCount_strip:
  "domainEventCount (a\<lparr>loggedErrors := x\<rparr>) = domainEventCount a"
  by (simp add: domainEventCount_def)

lemma parseLogs_skip:
  "parseLogs deps (filter (\<lambda>l. \<not> malformed deps l) logs) emptyParsed =
     (parseLogs deps logs emptyParsed)\<lparr>loggedErrors := []\<rparr>"
proof (induction logs)
  case Nil
  show ?case by (simp add: emptyParsed_def)
next
  case (Cons l ls)
  show ?case
  proof (cases "malformed deps l")
    case True
    then show ?thesis
      using Cons.IH logOutput_malformed[of deps l]
      by (simp add: parseLogs_Cons strip_append del: parseLogs.simps)
  next
    case False
    then have "(logOutput deps l)\<lparr>loggedErrors := []\<rparr> = logOutput deps l"
      using logOutput_wellformed[of deps l] by simp
    then show ?thesis
      using False Cons.IH
      by (simp add: parseLogs_Cons strip_append del: parseLogs.simps)
  qed
qed

lemma parseLogs_count:
  "domainEventCount (parseLogs deps logs emptyParsed) = length (filter (wellFormedKnown deps) logs)"
proof (induction logs)
  case Nil
  show ?case by (simp add: emptyParsed_out)
next
  case (Cons l ls)
  show ?case
  proof (cases "malformed deps l")
    case True
    have "domainEventCount (logOutput deps l) = domainEventCount ((logOutput deps l)\<lparr>loggedErrors := []\<rparr>)"
      by (simp add: domainEventCount_strip)
    also have "\<dots> = 0" using logOutput_malformed[OF True] by (simp add: emptyParsed_out)
    finally show ?thesis using True Cons.IH
      by (simp add: parseLogs_Cons domainEventCount_append wellFormedKnown_def del: parseLogs.simps)
  next
    case False
    then show ?thesis using Cons.IH logOutput_wellformed[OF False]
      by (simp add: parseLogs_Cons domainEventCount_append wellFormedKnown_def del: parseLogs.simps)
  qed
qed

lemma loggedErrors_append:
  "loggedErrors (appendParsed a b) = loggedErrors a @ loggedErrors b"
  by (simp add: appendParsed_def)

lemma parseLogs_logged:
  "length (loggedErrors (parseLogs deps logs emptyParsed)) = length (filter (malformed deps) logs)"
proof (induction logs)
  case Nil
  show ?case by (simp add: emptyParsed_out)
next
  case (Cons l ls)
  show ?case
    using Cons.IH logOutput_malformed[of deps l] logOutput_wellformed[of deps l]
    by (cases "malformed deps l")
       (simp_all add: parseLogs_Cons loggedErrors_append del: parseLogs.simps)
qed

lemma syncCallback_strip:
  assumes "q = p\<lparr>loggedErrors := []\<rparr>"
  shows "bulkCancelEvents q = bulkCancelEvents p" "cancelEvents q = cancelEvents p"
    "fillEvents q = fillEvents p" "hashInfos q = hashInfos p" "fillInfos q = fillInfos p"
  using assms by simp_all

lemma exampleBatch_malformed:
  "map (malformed exampleDeps) exampleBatch =
     [False, False, False, True, False, False, False, False, False, False]"
  by (simp add: exampleBatch_def exampleLog_def exampleDeps_def malformed_def switchCase_def
      numericOfString_def digitValue_def digitChars_def upt_rec)

lemma exampleBatch_wellFormedKnown:
  "map (wellFormedKnown exampleDeps) exampleBatch =
     [True, True, True, False, True, True, True, True, True, True]"
  by (simp add: exampleBatch_def exampleLog_def exampleDeps_def wellFormedKnown_def knownTopic_def
      malformed_def switchCase_def numericOfString_def digitValue_def digitChars_def upt_rec)


lemma length_filter_map: "length (filter P xs) = length (filter (\<lambda>b. b) (map P xs))"
  by (induction xs) simp_all

lemma syncCallback_no_bulk_cancel:
  assumes "bulkCancelEvents (parseLogs deps logs emptyParsed) = []"
  shows "fst (syncCallback config deps logs backfill st) = None"
  unfolding syncCallback_def Let_def assms by simp

text \<open>
  The loop skips what does not decode. A malformed log is logged and skipped: the five
  arrays after the loop are those of the batch without its malformed logs, every
  well-formed log of a known event type adds exactly one domain event, and one message is
  logged for each malformed log. The call of \<open>syncCallback\<close> ends as it does on the batch
  without the malformed logs, and on a batch without bulk-cancel events it ends without
  error.
\<close>

theorem malformed_logs_skipped:
  "parseLogs deps (filter (\<lambda>l. \<not> malformed deps l) logs) emptyParsed =
     (parseLogs deps logs emptyParsed)\<lparr>loggedErrors := []\<rparr>
   \<and> domainEventCount (parseLogs deps logs emptyParsed) = length (filter (wellFormedKnown deps) logs)
   \<and> length (loggedErrors (parseLogs deps logs emptyParsed)) = length (filter (malformed deps) logs)
   \<and> syncCallback config deps logs backfill st =
       syncCallback config deps (filter (\<lambda>l. \<not> malformed deps l) logs) backfill st
   \<and> (bulkCancelEvents (parseLogs deps logs emptyParsed) = [] \<longrightarrow>
        fst (syncCallback config deps logs backfill st) = None)"
proof -
  note s = syncCallback_strip[OF parseLogs_skip[of deps logs]]
  have "syncCallback config deps logs backfill st =
       syncCallback config deps (filter (\<lambda>l. \<not> malformed deps l) logs) backfill st"
    unfolding syncCallback_def Let_def s ..
  then show ?thesis
    using parseLogs_skip parseLogs_count parseLogs_logged syncCallback_no_bulk_cancel by blast
qed

lemma exampleBatch_bulkCancel:
  "bulkCancelEvents (parseLogs exampleDeps exampleBatch emptyParsed) = []"
  by (simp add: exampleBatch_def exampleLog_def exampleDeps_def tryBody_def Let_def
      emptyParsed_def numericOfString_def digitValue_def digitChars_def upt_rec)

text \<open>
  One malformed log among ten: nine domain events, one logged message, and a live call
  that ends without error.
\<close>

theorem malformed_logs_skipped_witness:
  "length exampleBatch = 10
   \<and> length (filter (malformed exampleDeps) exampleBatch) = 1
   \<and> length (filter (wellFormedKnown exampleDeps) exampleBatch) = 9
   \<and> domainEventCount (parseLogs exampleDeps exampleBatch emptyParsed) = 9
   \<and> length (loggedErrors (parseLogs exampleDeps exampleBatch emptyParsed)) = 1
   \<and> fst (syncCallback \<lparr>chainId = 1, acceptOrders = True, doBackgroundWork = True\<rparr>
        exampleDeps exampleBatch None exampleStore) = None"
proof -
  have m: "length (filter (malformed exampleDeps) exampleBatch) = 1"
    by (simp add: length_filter_map[of "malformed exampleDeps"] exampleBatch_malformed)
  have k: "length (filter (wellFormedKnown exampleDeps) exampleBatch) = 9"
    by (simp add: length_filter_map[of "wellFormedKnown exampleDeps"] exampleBatch_wellFormedKnown)
  have l: "length exampleBatch = 10" by (simp add: exampleBatch_def)
  note t = malformed_logs_skipped[of exampleDeps exampleBatch
      "\<lparr>chainId = 1, acceptOrders = True, doBackgroundWork = True\<rparr>" None exampleStore]
  have c: "domainEventCount (parseLogs exampleDeps exampleBatch emptyParsed) = 9"
    using t k by simp
  have e: "length (loggedErrors (parseLogs exampleDeps exampleBatch emptyParsed)) = 1"
    using t m by simp
  have f: "fst (syncCallback \<lparr>chainId = 1, acceptOrders = True, doBackgroundWork = True\<rparr>
        exampleDeps exampleBatch None exampleStore) = None"
    using t exampleBatch_bulkCancel by blast
  show ?thesis
    using l m k c e f by blast
qed

section \<open>Properties of syncCallback\<close>

lemma tryBody_OrdersMatched:
  assumes "parseEvent deps log = Inr baseParams"
    and "log_topics log = topic0 # ts"
    and "topic0 \<noteq> getEventTopic deps ''OrderCancelled''"
    and "topic0 = getEventTopic deps ''OrdersMatched''"
    and "parseLog deps log = Inr (OrdersMatchedArgs buyHash sellHash maker taker price metadata)"
  shows "tryBody deps log emptyParsed =
     Inr \<lparr>bulkCancelEvents = [], cancelEvents = [],
       fillEvents =
         [\<lparr>fe_buyHash = toLowerCase buyHash, fe_sellHash = toLowerCase sellHash,
           fe_maker = toLowerCase maker, fe_taker = toLowerCase taker,
           fe_price = toString price, fe_baseParams = baseParams\<rparr>],
       hashInfos =
         [\<lparr>hi_context = bp_txHash baseParams @ ''-'' @ toString (bp_logIndex baseParams),
           hi_hash = toLowerCase buyHash\<rparr>,
          \<lparr>hi_context = bp_txHash baseParams @ ''-'' @ toString (bp_logIndex baseParams),
           hi_hash = toLowerCase sellHash\<rparr>],
       fillInfos =
         [\<lparr>fi_context = bp_txHash baseParams @ ''-'' @ toString (bp_logIndex baseParams),
           fi_buyHash = toLowerCase buyHash, fi_sellHash = toLowerCase sellHash,
           fi_block = bp_block baseParams\<rparr>],
       loggedErrors = []\<rparr>"
  using assms unfolding tryBody_cases
  by (simp add: Let_def emptyParsed_def)

lemma store_noop:
  "addCancelEvents k [] st = st" "addFillEvents k [] st = st"
  "addToOrdersUpdateByHashQueue [] st = st" "addToFillsHandleQueue [] st = st"
  by (simp_all add: addCancelEvents_def addFillEvents_def addToOrdersUpdateByHashQueue_def
      addToFillsHandleQueue_def)

lemma exampleMatch_tryBody:
  "parseEvent exampleDeps (exampleLog [''OrdersMatched'', ''0xM1'', ''0xT1'', ''0x00''] ''0xB10xS125'' 6) =
     Inr \<lparr>bp_address = ''0xC0'', bp_txHash = ''0xt1'', bp_logIndex = 6, bp_batchIndex = 1,
          bp_block = 100, bp_blockHash = ''0xb1'', bp_timestamp = 0\<rparr>"
  "log_topics (exampleLog [''OrdersMatched'', ''0xM1'', ''0xT1'', ''0x00''] ''0xB10xS125'' 6) =
     ''OrdersMatched'' # [''0xM1'', ''0xT1'', ''0x00'']"
  "''OrdersMatched'' \<noteq> getEventTopic exampleDeps ''OrderCancelled''"
  "''OrdersMatched'' = getEventTopic exampleDeps ''OrdersMatched''"
  "parseLog exampleDeps (exampleLog [''OrdersMatched'', ''0xM1'', ''0xT1'', ''0x00''] ''0xB10xS125'' 6) =
     Inr (OrdersMatchedArgs ''0xB1'' ''0xS1'' ''0xM1'' ''0xT1'' 25 ''0x00'')"
  by (simp_all add: exampleLog_def exampleDeps_def numericOfString_def digitValue_def
      digitChars_def upt_rec)

lemma example_strings:
  "toLowerCase ''0xB1'' = ''0xb1''" "toLowerCase ''0xS1'' = ''0xs1''"
  "toLowerCase ''0xM1'' = ''0xm1''" "toLowerCase ''0xT1'' = ''0xt1''"
  "toString 25 = ''25''" "toString 6 = ''6''"
  by (simp_all add: toLowerCase_def lowerChar_def upperChars_def lowerChars_def toString.simps
      digitChars_def)

text \<open>
  Claim C8. A well-formed \<^verbatim>\<open>OrdersMatched\<close> log (the \<^verbatim>\<open>switch\<close> reaches its case, and
  \<^verbatim>\<open>parseEvent\<close> and \<^verbatim>\<open>abi.parseLog\<close> succeed) adds, wherever it stands in the batch,
  exactly one FillEvent with the lower-cased buy hash, sell hash, maker and taker and the
  price, exactly two reconciliation items \<open>{context, hash}\<close> (buy hash, then sell hash) and
  exactly one fill item \<open>{context, buyHash, sellHash, block}\<close>, where the context is the
  transaction hash, a dash and the log index. A batch of this one log appends the event
  to the ledger and, when \<^verbatim>\<open>backfill\<close> is not set and \<^verbatim>\<open>config.acceptOrders\<close> is, the items
  to the two queues.
\<close>

theorem ordersMatched_emits:
  assumes "parseEvent deps log = Inr baseParams"
    and "log_topics log = topic0 # ts"
    and "topic0 \<noteq> getEventTopic deps ''OrderCancelled''"
    and "topic0 = getEventTopic deps ''OrdersMatched''"
    and "parseLog deps log = Inr (OrdersMatchedArgs buyHash sellHash maker taker price metadata)"
    and "context = bp_txHash baseParams @ ''-'' @ toString (bp_logIndex baseParams)"
    and "fillEvent = \<lparr>fe_buyHash = toLowerCase buyHash, fe_sellHash = toLowerCase sellHash,
           fe_maker = toLowerCase maker, fe_taker = toLowerCase taker,
           fe_price = toString price, fe_baseParams = baseParams\<rparr>"
    and "buyInfo = \<lparr>hi_context = context, hi_hash = toLowerCase buyHash\<rparr>"
    and "sellInfo = \<lparr>hi_context = context, hi_hash = toLowerCase sellHash\<rparr>"
    and "fillInfo = \<lparr>fi_context = context, fi_buyHash = toLowerCase buyHash,
           fi_sellHash = toLowerCase sellHash, fi_block = bp_block baseParams\<rparr>"
  shows "parseLogs deps (logs1 @ log # logs2) emptyParsed =
           appendParsed (parseLogs deps logs1 emptyParsed)
             (appendParsed
                \<lparr>bulkCancelEvents = [], cancelEvents = [], fillEvents = [fillEvent],
                 hashInfos = [buyInfo, sellInfo], fillInfos = [fillInfo], loggedErrors = []\<rparr>
                (parseLogs deps logs2 emptyParsed))
     \<and> syncCallback config deps [log] backfill st =
           (None,
            if backfill \<noteq> Some True \<and> acceptOrders config then
              st\<lparr>fill_events := fill_events st @ [(''wyvern-v2'', fillEvent)],
                 ordersUpdateByHashQueue := ordersUpdateByHashQueue st @ [buyInfo, sellInfo],
                 fillsHandleQueue := fillsHandleQueue st @ [fillInfo]\<rparr>
            else st\<lparr>fill_events := fill_events st @ [(''wyvern-v2'', fillEvent)]\<rparr>)"
proof -
  let ?out = "\<lparr>bulkCancelEvents = [], cancelEvents = [], fillEvents = [fillEvent],
     hashInfos = [buyInfo, sellInfo], fillInfos = [fillInfo], loggedErrors = []\<rparr>"
  have tb: "tryBody deps log emptyParsed = Inr ?out"
    using tryBody_OrdersMatched[OF assms(1-5)] assms(6-10) by simp
  then have lo: "logOutput deps log = ?out" by (simp add: logOutput_def)
  have batch: "parseLogs deps (logs1 @ log # logs2) emptyParsed =
           appendParsed (parseLogs deps logs1 emptyParsed)
             (appendParsed ?out (parseLogs deps logs2 emptyParsed))"
    by (simp only: parseLogs_append parseLogs_Cons lo)
  have p: "parseLogs deps [log] emptyParsed = ?out"
    using tb by simp
  have single: "syncCallback config deps [log] backfill st =
           (None,
            if backfill \<noteq> Some True \<and> acceptOrders config then
              st\<lparr>fill_events := fill_events st @ [(''wyvern-v2'', fillEvent)],
                 ordersUpdateByHashQueue := ordersUpdateByHashQueue st @ [buyInfo, sellInfo],
                 fillsHandleQueue := fillsHandleQueue st @ [fillInfo]\<rparr>
            else st\<lparr>fill_events := fill_events st @ [(''wyvern-v2'', fillEvent)]\<rparr>)"
    unfolding syncCallback_def Let_def p
    by (simp add: store_noop addFillEvents_def addToOrdersUpdateByHashQueue_def
        addToFillsHandleQueue_def)
  from batch single show ?thesis by (rule conjI)
qed

text \<open>
  The match of the example batch, alone in a live batch on the store with one order: one
  fill event in the ledger, two reconciliation items and one fill item in the queues.
\<close>

theorem ordersMatched_emits_witness:
  "syncCallback \<lparr>chainId = 1, acceptOrders = True, doBackgroundWork = True\<rparr> exampleDeps
     [exampleLog [''OrdersMatched'', ''0xM1'', ''0xT1'', ''0x00''] ''0xB10xS125'' 6] None exampleStore =
     (None,
      exampleStore\<lparr>
        fill_events :=
          [(''wyvern-v2'',
            \<lparr>fe_buyHash = ''0xb1'', fe_sellHash = ''0xs1'', fe_maker = ''0xm1'', fe_taker = ''0xt1'',
             fe_price = ''25'', fe_baseParams =
               \<lparr>bp_address = ''0xC0'', bp_txHash = ''0xt1'', bp_logIndex = 6, bp_batchIndex = 1,
                bp_block = 100, bp_blockHash = ''0xb1'', bp_timestamp = 0\<rparr>\<rparr>)],
        ordersUpdateByHashQueue :=
          [\<lparr>hi_context = ''0xt1-6'', hi_hash = ''0xb1''\<rparr>,
           \<lparr>hi_context = ''0xt1-6'', hi_hash = ''0xs1''\<rparr>],
        fillsHandleQueue :=
          [\<lparr>fi_context = ''0xt1-6'', fi_buyHash = ''0xb1'', fi_sellHash = ''0xs1'',
            fi_block = 100\<rparr>]\<rparr>)"
proof -
  note t = ordersMatched_emits[OF exampleMatch_tryBody refl refl refl refl refl,
      of "[]" "[]" "\<lparr>chainId = 1, acceptOrders = True, doBackgroundWork = True\<rparr>" None exampleStore]
  have e: "fill_events exampleStore = []" "ordersUpdateByHashQueue exampleStore = []"
    "fillsHandleQueue exampleStore = []"
    by (simp_all add: exampleStore_def)
  from t[THEN conjunct2] show ?thesis
    by (simp add: example_strings e)
qed

section \<open>Lower case\<close>

lemma lowerChar_not_upper: "lowerChar c \<notin> set upperChars"
  unfolding lowerChar_def upperChars_def lowerChars_def
  by (simp split: option.split)

lemma isLowerCase_toLowerCase: "isLowerCase (toLowerCase s)"
  by (simp add: isLowerCase_def toLowerCase_def list_all_iff lowerChar_not_upper)

lemma lowerCased_append: "lowerCased (appendParsed a b) = (lowerCased a \<and> lowerCased b)"
  by (auto simp: lowerCased_def appendParsed_def)

lemma lowerCased_empty: "lowerCased emptyParsed" "lowerCased (emptyParsed\<lparr>loggedErrors := es\<rparr>)"
  by (simp_all add: lowerCased_def emptyParsed_def)

lemma caseOrderCancelled_lower:
  "caseOrderCancelled c b emptyParsed args = Inr p \<Longrightarrow> lowerCased p"
  by (cases args) (auto simp: Let_def emptyParsed_def lowerCased_def isLowerCase_toLowerCase)

lemma caseOrdersMatched_lower:
  "caseOrdersMatched c b emptyParsed args = Inr p \<Longrightarrow> lowerCased p"
  by (cases args) (auto simp: Let_def emptyParsed_def lowerCased_def isLowerCase_toLowerCase)

lemma caseNonceIncremented_lower:
  "caseNonceIncremented c b emptyParsed args = Inr p \<Longrightarrow> lowerCased p"
  by (cases args) (auto simp: Let_def emptyParsed_def lowerCased_def isLowerCase_toLowerCase)

lemma tryBody_lower:
  assumes "tryBody deps log emptyParsed = Inr p"
  shows "lowerCased p"
  using assms unfolding tryBody_cases
  by (auto split: sum.splits list.splits if_splits
      dest: caseOrderCancelled_lower caseOrdersMatched_lower caseNonceIncremented_lower
      simp: lowerCased_empty)

lemma logOutput_lower: "lowerCased (logOutput deps log)"
  unfolding logOutput_def
  by (cases "tryBody deps log emptyParsed") (simp_all add: lowerCased_empty tryBody_lower)

text \<open>
  Claim C10. For every batch and every decoder, each order hash and each maker or taker
  address in the cancel events, fill events, bulk-cancel events, reconciliation items
  and fill items that the loop hands on to the ledger and the queues is in lower case,
  whatever the casing of the decoded log.
\<close>

theorem emitted_hashes_lowercase:
  "lowerCased (parseLogs deps logs emptyParsed)"
proof (induction logs)
  case Nil
  show ?case by (simp add: lowerCased_empty)
next
  case (Cons l ls)
  show ?case
    unfolding parseLogs_Cons lowerCased_append using Cons.IH logOutput_lower by simp
qed

lemma exampleBatch_cancelled:
  "map ce_orderHash (cancelEvents (parseLogs exampleDeps exampleBatch emptyParsed)) =
     [''0xaa01'', ''0xaa02'', ''0xaa03'', ''0xaa04'', ''0xaa05'', ''0xaa07'', ''0xaa08'', ''0xaa09'']"
  by (simp add: exampleBatch_def exampleLog_def exampleDeps_def tryBody_def Let_def
      emptyParsed_def numericOfString_def digitValue_def digitChars_def upt_rec
      toLowerCase_def lowerChar_def upperChars_def lowerChars_def)

text \<open>The example batch: upper-case hashes in the logs, lower-case hashes in the events.\<close>

theorem emitted_hashes_lowercase_witness:
  "lowerCased (parseLogs exampleDeps exampleBatch emptyParsed)
   \<and> map ce_orderHash (cancelEvents (parseLogs exampleDeps exampleBatch emptyParsed)) =
     [''0xaa01'', ''0xaa02'', ''0xaa03'', ''0xaa04'', ''0xaa05'', ''0xaa07'', ''0xaa08'', ''0xaa09'']"
  using emitted_hashes_lowercase[of exampleDeps exampleBatch] exampleBatch_cancelled
  by (rule conjI)

section \<open>Backfill and the gates of the dispatch\<close>

lemma bulkCancelLoop_frame:
  "cancel_events (snd (bulkCancelLoop evs st)) = cancel_events st
   \<and> fill_events (snd (bulkCancelLoop evs st)) = fill_events st
   \<and> fillsHandleQueue (snd (bulkCancelLoop evs st)) = fillsHandleQueue st"
proof (induction evs arbitrary: st)
  case Nil
  show ?case by simp
next
  case (Cons ev evs)
  show ?case
  proof (cases "manyOrNone (bulkCancelStmt (bc_maker ev) (bc_newNonce ev)) (orders st)")
    case (Inl e)
    then show ?thesis by simp
  next
    case (Inr r)
    obtain rows hashes where r: "r = (rows, hashes)" by (cases r)
    show ?thesis
      using Inr r
        Cons.IH[of "addToOrdersUpdateByHashQueue
           (map (\<lambda>hash. \<lparr>hi_context = bc_context ev, hi_hash = hash\<rparr>) hashes) (st\<lparr>orders := rows\<rparr>)"]
      by (simp add: addToOrdersUpdateByHashQueue_def)
  qed
qed

lemma syncCallback_ledger:
  "cancel_events (snd (syncCallback config deps logs backfill st)) =
     cancel_events st @ map (\<lambda>e. (''wyvern-v2'', e)) (cancelEvents (parseLogs deps logs emptyParsed))"
  "fill_events (snd (syncCallback config deps logs backfill st)) =
     fill_events st @ map (\<lambda>e. (''wyvern-v2'', e)) (fillEvents (parseLogs deps logs emptyParsed))"
  unfolding syncCallback_def Let_def
  by (simp_all add: bulkCancelLoop_frame addCancelEvents_def addFillEvents_def
      addToOrdersUpdateByHashQueue_def addToFillsHandleQueue_def)

lemma syncCallback_backfill:
  "syncCallback config deps logs (Some True) st =
     (None, addFillEvents ''wyvern-v2'' (fillEvents (parseLogs deps logs emptyParsed))
        (addCancelEvents ''wyvern-v2'' (cancelEvents (parseLogs deps logs emptyParsed)) st))"
  unfolding syncCallback_def Let_def by simp

text \<open>
  Claim C4. Whatever the \<^verbatim>\<open>backfill\<close> flag and the configuration, the call appends the
  cancel events and the fill events of the batch to the ledger. With \<^verbatim>\<open>backfill\<close> set it
  does nothing else: it ends without error, and the orders table and both queues are as
  they were.
\<close>

theorem backfill_ledger_only:
  "cancel_events (snd (syncCallback config deps logs backfill st)) =
     cancel_events st @ map (\<lambda>e. (''wyvern-v2'', e)) (cancelEvents (parseLogs deps logs emptyParsed))
   \<and> fill_events (snd (syncCallback config deps logs backfill st)) =
     fill_events st @ map (\<lambda>e. (''wyvern-v2'', e)) (fillEvents (parseLogs deps logs emptyParsed))
   \<and> fst (syncCallback config deps logs (Some True) st) = None
   \<and> orders (snd (syncCallback config deps logs (Some True) st)) = orders st
   \<and> ordersUpdateByHashQueue (snd (syncCallback config deps logs (Some True) st)) =
       ordersUpdateByHashQueue st
   \<and> fillsHandleQueue (snd (syncCallback config deps logs (Some True) st)) = fillsHandleQueue st"
  unfolding syncCallback_backfill
  by (simp add: syncCallback_ledger addCancelEvents_def addFillEvents_def)


text \<open>
  The example batch replayed as backfill: eight cancel events and one fill event reach the
  ledger, the order and the queues stay as they were.
\<close>

theorem backfill_ledger_only_witness:
  "map (\<lambda>(kind, e). ce_orderHash e)
     (cancel_events (snd (syncCallback \<lparr>chainId = 1, acceptOrders = True, doBackgroundWork = True\<rparr>
        exampleDeps exampleBatch (Some True) exampleStore))) =
     [''0xaa01'', ''0xaa02'', ''0xaa03'', ''0xaa04'', ''0xaa05'', ''0xaa07'', ''0xaa08'', ''0xaa09'']
   \<and> orders (snd (syncCallback \<lparr>chainId = 1, acceptOrders = True, doBackgroundWork = True\<rparr>
        exampleDeps exampleBatch (Some True) exampleStore)) = orders exampleStore
   \<and> ordersUpdateByHashQueue (snd (syncCallback \<lparr>chainId = 1, acceptOrders = True, doBackgroundWork = True\<rparr>
        exampleDeps exampleBatch (Some True) exampleStore)) = []
   \<and> fillsHandleQueue (snd (syncCallback \<lparr>chainId = 1, acceptOrders = True, doBackgroundWork = True\<rparr>
        exampleDeps exampleBatch (Some True) exampleStore)) = []"
proof -
  note t = backfill_ledger_only[of "\<lparr>chainId = 1, acceptOrders = True, doBackgroundWork = True\<rparr>"
      exampleDeps exampleBatch "Some True" exampleStore]
  have e: "cancel_events exampleStore = []" "ordersUpdateByHashQueue exampleStore = []"
    "fillsHandleQueue exampleStore = []"
    by (simp_all add: exampleStore_def)
  have m: "map ((\<lambda>(kind, e). ce_orderHash e) \<circ> Pair ''wyvern-v2'') xs = map ce_orderHash xs" for xs
    by (induction xs) simp_all
  from t show ?thesis
    by (simp add: e m exampleBatch_cancelled)
qed

section \<open>The bulk-cancel loop\<close>

lemma bulkCancelStmt_where:
  "upd_where (bulkCancelStmt (bc_maker ev) (bc_newNonce ev)) r = bulkCancelSelects ev r"
  by (simp add: bulkCancelStmt_def bulkCancelSelects_def)

text \<open>
  With \<^verbatim>\<open>returning\<close> in the place of \<^verbatim>\<open>return\<close> the statement would cancel the selected
  orders and hand back their hashes; as it reads, the database rejects it.
\<close>

lemma bulkCancelStmt_returning:
  "manyOrNone ((bulkCancelStmt (bc_maker ev) (bc_newNonce ev))\<lparr>upd_tailKeyword := ''returning''\<rparr>) rows =
     Inr (map (\<lambda>r. if bulkCancelSelects ev r then r\<lparr>o_status := ''cancelled''\<rparr> else r) rows,
          map o_hash (filter (bulkCancelSelects ev) rows))"
  by (auto simp: manyOrNone_def bulkCancelStmt_def bulkCancelSelects_def[abs_def])

lemma bulkCancel_rejected:
  "manyOrNone (bulkCancelStmt maker nonce) rows = Inl (SyntaxError ''return'')"
  by (simp add: manyOrNone_def bulkCancelStmt_def)

lemma bulkCancelLoop_rejected:
  "bulkCancelLoop evs st = (if evs = [] then None else Some (SyntaxError ''return''), st)"
  by (cases evs) (simp_all add: bulkCancel_rejected)

lemma keptOrCancelled_same: "list_all2 (keptOrCancelled evs) rows rows"
  by (simp add: list_all2_same keptOrCancelled_def)

lemma syncCallback_gate_closed:
  assumes "backfill = Some True \<or> \<not> acceptOrders config"
  shows "syncCallback config deps logs backfill st =
     (None, addFillEvents ''wyvern-v2'' (fillEvents (parseLogs deps logs emptyParsed))
        (addCancelEvents ''wyvern-v2'' (cancelEvents (parseLogs deps logs emptyParsed)) st))"
  using assms unfolding syncCallback_def Let_def by auto

lemma syncCallback_orders:
  "orders (snd (syncCallback config deps logs backfill st)) = orders st"
  unfolding syncCallback_def Let_def
  by (simp add: bulkCancelLoop_rejected addCancelEvents_def addFillEvents_def
      addToOrdersUpdateByHashQueue_def addToFillsHandleQueue_def)

lemma exampleBulkCancel_parsed:
  "parseLogs exampleDeps [exampleBulkCancelLog] emptyParsed =
     emptyParsed\<lparr>bulkCancelEvents :=
       [\<lparr>bc_context = ''0xt1-0'', bc_maker = ''0xmm'', bc_newNonce = ''5''\<rparr>]\<rparr>"
  by (simp add: exampleBulkCancelLog_def exampleLog_def exampleDeps_def tryBody_def Let_def
      emptyParsed_def numericOfString_def digitValue_def digitChars_def upt_rec
      toString.simps toLowerCase_def lowerChar_def upperChars_def lowerChars_def)

text \<open>
  Claim C3, as stated, fails: with \<^verbatim>\<open>config.acceptOrders\<close> unset a live batch with a
  bulk-cancel event for maker \<^verbatim>\<open>0xmm\<close> and new nonce 5 leaves the valid order of that
  maker with nonce 3 as it is and enqueues nothing.
\<close>

theorem bulk_cancel_not_applied_counterexample:
  "bulkCancelEvents (parseLogs exampleDeps [exampleBulkCancelLog] emptyParsed) =
     [\<lparr>bc_context = ''0xt1-0'', bc_maker = ''0xmm'', bc_newNonce = ''5''\<rparr>]
   \<and> numericOfString ''5'' = Some 5
   \<and> orders exampleStore =
       [\<lparr>o_hash = ''0xh1'', o_kind = ''wyvern-v2.3'', o_maker = ''0xmm'',
         o_nonce = Some 3, o_status = ''valid''\<rparr>]
   \<and> syncCallback \<lparr>chainId = 1, acceptOrders = False, doBackgroundWork = True\<rparr>
        exampleDeps [exampleBulkCancelLog] (Some False) exampleStore = (None, exampleStore)"
  unfolding syncCallback_def Let_def exampleBulkCancel_parsed
  by (simp add: emptyParsed_def exampleStore_def addCancelEvents_def addFillEvents_def
      numericOfString_def digitValue_def digitChars_def upt_rec)

text \<open>
  Claim C3, amended. Bulk-cancel events touch orders only behind both gates: with
  \<^verbatim>\<open>backfill\<close> set or \<^verbatim>\<open>config.acceptOrders\<close> unset the orders table and the
  reconciliation queue are left as they were. In every batch each order is either left
  unchanged, or differs only in its status, which is \<^verbatim>\<open>cancelled\<close>, and then a bulk-cancel
  event of the batch selects it: the order is of kind \<^verbatim>\<open>wyvern-v2.3\<close>, has the maker of the
  event, a stored nonce strictly less than the new nonce, and status \<^verbatim>\<open>valid\<close> or
  \<^verbatim>\<open>no-balance\<close>. No order with another kind or maker, with a null nonce or a nonce not
  less than the new nonce, or with another status is changed.
\<close>

theorem bulk_cancel_gated:
  "(backfill = Some True \<or> \<not> acceptOrders config \<longrightarrow>
      orders (snd (syncCallback config deps logs backfill st)) = orders st
      \<and> ordersUpdateByHashQueue (snd (syncCallback config deps logs backfill st)) =
          ordersUpdateByHashQueue st)
   \<and> list_all2 (keptOrCancelled (bulkCancelEvents (parseLogs deps logs emptyParsed)))
        (orders st) (orders (snd (syncCallback config deps logs backfill st)))"
proof -
  have "backfill = Some True \<or> \<not> acceptOrders config \<Longrightarrow>
      ordersUpdateByHashQueue (snd (syncCallback config deps logs backfill st)) =
          ordersUpdateByHashQueue st"
    by (simp add: syncCallback_gate_closed addCancelEvents_def addFillEvents_def)
  then show ?thesis
    by (simp add: syncCallback_orders keptOrCancelled_same)
qed

text \<open>The same event replayed as backfill, with \<^verbatim>\<open>config.acceptOrders\<close> set.\<close>

theorem bulk_cancel_gated_witness:
  "orders (snd (syncCallback \<lparr>chainId = 1, acceptOrders = True, doBackgroundWork = True\<rparr>
        exampleDeps [exampleBulkCancelLog] (Some True) exampleStore)) = orders exampleStore
   \<and> ordersUpdateByHashQueue (snd (syncCallback \<lparr>chainId = 1, acceptOrders = True, doBackgroundWork = True\<rparr>
        exampleDeps [exampleBulkCancelLog] (Some True) exampleStore)) = []
   \<and> list_all2 (keptOrCancelled [\<lparr>bc_context = ''0xt1-0'', bc_maker = ''0xmm'', bc_newNonce = ''5''\<rparr>])
        (orders exampleStore)
        (orders (snd (syncCallback \<lparr>chainId = 1, acceptOrders = True, doBackgroundWork = True\<rparr>
           exampleDeps [exampleBulkCancelLog] (Some True) exampleStore)))"
proof -
  have pe: "bulkCancelEvents (parseLogs exampleDeps [exampleBulkCancelLog] emptyParsed) =
      [\<lparr>bc_context = ''0xt1-0'', bc_maker = ''0xmm'', bc_newNonce = ''5''\<rparr>]"
    unfolding exampleBulkCancel_parsed by (simp add: emptyParsed_def)
  have q: "ordersUpdateByHashQueue exampleStore = []"
    by (simp add: exampleStore_def)
  show ?thesis
    using bulk_cancel_gated[of "Some True"
        "\<lparr>chainId = 1, acceptOrders = True, doBackgroundWork = True\<rparr>"
        exampleDeps "[exampleBulkCancelLog]" exampleStore, unfolded pe]
    by (auto simp: q simp del: parseLogs.simps)
qed

lemma exampleMixedBatch_parsed:
  "parseLogs exampleDeps exampleMixedBatch emptyParsed =
     emptyParsed\<lparr>bulkCancelEvents :=
         [\<lparr>bc_context = ''0xt1-0'', bc_maker = ''0xmm'', bc_newNonce = ''5''\<rparr>],
       loggedErrors := [DecodeError ''topics'']\<rparr>"
  by (simp add: exampleMixedBatch_def exampleBulkCancelLog_def exampleLog_def exampleDeps_def
      tryBody_def Let_def emptyParsed_def numericOfString_def digitValue_def digitChars_def
      upt_rec toString.simps toLowerCase_def lowerChar_def upperChars_def lowerChars_def)

lemma exampleMixedBatch_logs:
  "map (malformed exampleDeps) exampleMixedBatch = [True, False]"
  "map (wellFormedKnown exampleDeps) exampleMixedBatch = [False, True]"
  by (simp_all add: exampleMixedBatch_def exampleBulkCancelLog_def exampleLog_def exampleDeps_def
      wellFormedKnown_def knownTopic_def malformed_def switchCase_def numericOfString_def
      digitValue_def digitChars_def upt_rec)

text \<open>
  Claim C5 says that a batch with malformed logs raises no error at the level of the
  batch. On a live batch, with \<^verbatim>\<open>config.acceptOrders\<close> set, of one malformed log and one
  well-formed \<^verbatim>\<open>NonceIncremented\<close> log the loop does what the claim says (the malformed log
  is logged and skipped, the other log gives its bulk-cancel event), but the call ends
  with the syntax error of the bulk-cancel statement, which reads \<^verbatim>\<open>return "hash"\<close> where
  the database expects \<^verbatim>\<open>returning "hash"\<close>; the order that the event selects stays valid.
\<close>

theorem malformed_batch_rejected:
  "map (malformed exampleDeps) exampleMixedBatch = [True, False]
   \<and> map (wellFormedKnown exampleDeps) exampleMixedBatch = [False, True]
   \<and> bulkCancelEvents (parseLogs exampleDeps exampleMixedBatch emptyParsed) =
       [\<lparr>bc_context = ''0xt1-0'', bc_maker = ''0xmm'', bc_newNonce = ''5''\<rparr>]
   \<and> loggedErrors (parseLogs exampleDeps exampleMixedBatch emptyParsed) = [DecodeError ''topics'']
   \<and> syncCallback \<lparr>chainId = 1, acceptOrders = True, doBackgroundWork = True\<rparr>
        exampleDeps exampleMixedBatch (Some False) exampleStore =
       (Some (SyntaxError ''return''), exampleStore)"
proof -
  have "syncCallback \<lparr>chainId = 1, acceptOrders = True, doBackgroundWork = True\<rparr>
        exampleDeps exampleMixedBatch (Some False) exampleStore =
       (Some (SyntaxError ''return''), exampleStore)"
    unfolding syncCallback_def Let_def exampleMixedBatch_parsed
    by (simp add: emptyParsed_def bulkCancelLoop_rejected store_noop)
  moreover have "bulkCancelEvents (parseLogs exampleDeps exampleMixedBatch emptyParsed) =
       [\<lparr>bc_context = ''0xt1-0'', bc_maker = ''0xmm'', bc_newNonce = ''5''\<rparr>]"
    and "loggedErrors (parseLogs exampleDeps exampleMixedBatch emptyParsed) = [DecodeError ''topics'']"
    unfolding exampleMixedBatch_parsed by simp_all
  ultimately show ?thesis
    using exampleMixedBatch_logs by blast
qed

section \<open>fixCallback\<close>

lemma fixCallback_fields:
  "cancel_events (fixCallback blockHash st) =
     filter (\<lambda>(kind, e). bp_blockHash (ce_baseParams e) \<noteq> blockHash) (cancel_events st)"
  "fill_events (fixCallback blockHash st) =
     filter (\<lambda>(kind, e). bp_blockHash (fe_baseParams e) \<noteq> blockHash) (fill_events st)"
  "orders (fixCallback blockHash st) = orders st"
  "fillsHandleQueue (fixCallback blockHash st) = fillsHandleQueue st"
  by (simp_all add: fixCallback_def removeCancelEvents_def removeFillEvents_def Let_def
      addToOrdersUpdateByHashQueue_def)

lemma fixCallback_queue:
  "ordersUpdateByHashQueue (fixCallback blockHash st) =
     ordersUpdateByHashQueue st
     @ map (\<lambda>(kind, e). \<lparr>hi_context = eventContext (ce_baseParams e), hi_hash = ce_orderHash e\<rparr>)
         (filter (\<lambda>(kind, e). bp_blockHash (ce_baseParams e) = blockHash) (cancel_events st))
     @ concat (map (\<lambda>(kind, e).
           [\<lparr>hi_context = eventContext (fe_baseParams e), hi_hash = fe_buyHash e\<rparr>,
            \<lparr>hi_context = eventContext (fe_baseParams e), hi_hash = fe_sellHash e\<rparr>])
         (filter (\<lambda>(kind, e). bp_blockHash (fe_baseParams e) = blockHash) (fill_events st)))"
  by (simp add: fixCallback_def removeCancelEvents_def removeFillEvents_def Let_def
      addToOrdersUpdateByHashQueue_def)

lemma hashes_of_cancel_items:
  "map hi_hash
     (map (\<lambda>(kind, e). \<lparr>hi_context = eventContext (ce_baseParams e), hi_hash = ce_orderHash e\<rparr>) xs) =
   map (\<lambda>(kind, e). ce_orderHash e) xs"
  by (induction xs) (simp_all split: prod.splits)

lemma hashes_of_fill_items:
  "map hi_hash
     (concat (map (\<lambda>(kind, e).
           [\<lparr>hi_context = eventContext (fe_baseParams e), hi_hash = fe_buyHash e\<rparr>,
            \<lparr>hi_context = eventContext (fe_baseParams e), hi_hash = fe_sellHash e\<rparr>]) xs)) =
   concat (map (\<lambda>(kind, e). [fe_buyHash e, fe_sellHash e]) xs)"
  by (induction xs) (simp_all split: prod.splits)

text \<open>
  Claim C2. For every block hash, \<open>fixCallback\<close> deletes every cancel event and every
  fill event of that block and keeps the other ledger entries in their order; and behind
  the items already pending it enqueues one reconciliation item for every order hash
  that the removed events refer to (the hash of a removed cancel event, the buy and sell
  hash of a removed fill event). The orders table and the fill queue are left as they were.
\<close>

theorem fixCallback_removes_and_requeues:
  "list_all (\<lambda>(kind, e). bp_blockHash (ce_baseParams e) \<noteq> blockHash)
      (cancel_events (fixCallback blockHash st))
   \<and> list_all (\<lambda>(kind, e). bp_blockHash (fe_baseParams e) \<noteq> blockHash)
      (fill_events (fixCallback blockHash st))
   \<and> cancel_events (fixCallback blockHash st) =
       filter (\<lambda>(kind, e). bp_blockHash (ce_baseParams e) \<noteq> blockHash) (cancel_events st)
   \<and> fill_events (fixCallback blockHash st) =
       filter (\<lambda>(kind, e). bp_blockHash (fe_baseParams e) \<noteq> blockHash) (fill_events st)
   \<and> take (length (ordersUpdateByHashQueue st)) (ordersUpdateByHashQueue (fixCallback blockHash st)) =
       ordersUpdateByHashQueue st
   \<and> map hi_hash
         (drop (length (ordersUpdateByHashQueue st))
            (ordersUpdateByHashQueue (fixCallback blockHash st))) =
       referencedHashes blockHash st
   \<and> orders (fixCallback blockHash st) = orders st
   \<and> fillsHandleQueue (fixCallback blockHash st) = fillsHandleQueue st"
proof -
  have ledger: "list_all (\<lambda>(kind, e). bp_blockHash (ce_baseParams e) \<noteq> blockHash)
      (cancel_events (fixCallback blockHash st))"
    "list_all (\<lambda>(kind, e). bp_blockHash (fe_baseParams e) \<noteq> blockHash)
      (fill_events (fixCallback blockHash st))"
    by (simp_all add: fixCallback_fields list_all_iff split: prod.splits)
  have kept: "take (length (ordersUpdateByHashQueue st))
      (ordersUpdateByHashQueue (fixCallback blockHash st)) = ordersUpdateByHashQueue st"
    unfolding fixCallback_queue by simp
  have added: "map hi_hash
         (drop (length (ordersUpdateByHashQueue st))
            (ordersUpdateByHashQueue (fixCallback blockHash st))) =
       referencedHashes blockHash st"
    unfolding fixCallback_queue referencedHashes_def
    by (simp add: hashes_of_cancel_items hashes_of_fill_items del: map_map)
  show ?thesis
    using ledger kept added by (simp add: fixCallback_fields)
qed

lemma exampleLedger_queue:
  "ordersUpdateByHashQueue (fixCallback ''0xb1'' exampleLedger) =
     [\<lparr>hi_context = ''0xt1-0'', hi_hash = ''0xh1''\<rparr>,
      \<lparr>hi_context = ''0xt1-1'', hi_hash = ''0xh3''\<rparr>,
      \<lparr>hi_context = ''0xt1-1'', hi_hash = ''0xh4''\<rparr>]"
  unfolding fixCallback_queue
  by (simp add: exampleLedger_def eventContext_def toString.simps digitChars_def)

text \<open>
  A ledger with a cancel event and a fill event of block \<^verbatim>\<open>0xb1\<close> and a cancel event of
  block \<^verbatim>\<open>0xb2\<close>: the events of \<^verbatim>\<open>0xb1\<close> go, and their three order hashes are enqueued.
\<close>

theorem fixCallback_removes_and_requeues_witness:
  "referencedHashes ''0xb1'' exampleLedger = [''0xh1'', ''0xh3'', ''0xh4'']
   \<and> map (\<lambda>(kind, e). ce_orderHash e) (cancel_events (fixCallback ''0xb1'' exampleLedger)) = [''0xh2'']
   \<and> fill_events (fixCallback ''0xb1'' exampleLedger) = []
   \<and> ordersUpdateByHashQueue (fixCallback ''0xb1'' exampleLedger) =
       [\<lparr>hi_context = ''0xt1-0'', hi_hash = ''0xh1''\<rparr>,
        \<lparr>hi_context = ''0xt1-1'', hi_hash = ''0xh3''\<rparr>,
        \<lparr>hi_context = ''0xt1-1'', hi_hash = ''0xh4''\<rparr>]
   \<and> orders (fixCallback ''0xb1'' exampleLedger) = orders exampleLedger"
proof -
  note t = fixCallback_removes_and_requeues[of "''0xb1''" exampleLedger]
  have r: "referencedHashes ''0xb1'' exampleLedger = [''0xh1'', ''0xh3'', ''0xh4'']"
    by (simp add: referencedHashes_def exampleLedger_def)
  have c: "map (\<lambda>(kind, e). ce_orderHash e) (cancel_events (fixCallback ''0xb1'' exampleLedger)) = [''0xh2'']"
    using t by (simp add: exampleLedger_def)
  have f: "fill_events (fixCallback ''0xb1'' exampleLedger) = []"
    using t by (simp add: exampleLedger_def)
  have "orders (fixCallback ''0xb1'' exampleLedger) = orders exampleLedger"
    using t by blast
  then show ?thesis
    using r c f exampleLedger_queue by blast
qed

section \<open>The cursor sweep of remove-buy-order-events\<close>

lemma continuationFilter_cursorOf:
  "continuationFilter (Some (cursorOf x)) r = (sweepKey r < sweepKey x)"
  by (simp add: continuationFilter_def cursorOf_def sweepKey_def)

lemma selectBuyOrders_sweepOrder:
  "selectBuyOrders rows cursor 1 = take 1 (filter (continuationFilter cursor) (sweepOrder rows))"
proof -
  have "filter (\<lambda>r. or_side r = ''buy'' \<and> continuationFilter cursor r) rows =
      filter (continuationFilter cursor) (buyOrderRows rows)"
    by (simp add: buyOrderRows_def conj_commute)
  then show ?thesis
    unfolding selectBuyOrders_def limitRows_def orderByDesc_def sweepOrder_def
    by (simp add: sweepKey_def[abs_def] filter_sort flip: rev_filter)
qed

lemma length_remaining:
  "length (remaining rows cursor) = length (filter (continuationFilter cursor) (sweepOrder rows))"
proof -
  have "filter (continuationFilter cursor) (sweepOrder rows) =
      rev (sort_key sweepKey (filter (continuationFilter cursor) (buyOrderRows rows)))"
    unfolding sweepOrder_def by (simp add: filter_sort flip: rev_filter)
  then show ?thesis
    unfolding remaining_def by simp
qed

lemma sweepOrder_desc:
  assumes "distinct (map sweepKey (buyOrderRows rows))"
  shows "sorted_wrt (\<lambda>a b. sweepKey b < sweepKey a) (sweepOrder rows)"
proof -
  let ?s = "sort_key sweepKey (buyOrderRows rows)"
  have "sorted (map sweepKey ?s)" by (rule sorted_sort_key)
  moreover have "distinct (map sweepKey ?s)"
    using assms by (simp add: distinct_map)
  ultimately have "sorted_wrt (<) (map sweepKey ?s)"
    by (simp add: strict_sorted_iff)
  then have "sorted_wrt (\<lambda>a b. sweepKey a < sweepKey b) ?s"
    by (simp add: sorted_wrt_map)
  then show ?thesis
    unfolding sweepOrder_def by (simp add: sorted_wrt_rev)
qed

lemma filter_below_nth:
  fixes k :: "'a \<Rightarrow> 'b::linorder"
  assumes "sorted_wrt (\<lambda>a b. k b < k a) xs" and "i < length xs"
  shows "filter (\<lambda>r. k r < k (xs ! i)) xs = drop (Suc i) xs"
  using assms
proof (induction xs arbitrary: i)
  case Nil
  then show ?case by simp
next
  case (Cons x xs)
  show ?case
  proof (cases i)
    case 0
    have "\<forall>y\<in>set xs. k y < k x" using Cons.prems(1) by simp
    then have "filter (\<lambda>r. k r < k x) xs = xs" by (simp add: filter_id_conv)
    then show ?thesis using 0 by simp
  next
    case (Suc j)
    then have j: "j < length xs" using Cons.prems(2) by simp
    then have "k (xs ! j) < k x" using Cons.prems(1) by simp
    then have "\<not> k x < k (xs ! j)" by (simp add: not_less less_imp_le)
    moreover have "filter (\<lambda>r. k r < k (xs ! j)) xs = drop (Suc j) xs"
      using Cons.IH[OF _ j] Cons.prems(1) by simp
    ultimately show ?thesis using Suc by simp
  qed
qed

text \<open>One invocation on a job whose cursor leaves the rows from position \<open>n\<close> on.\<close>

lemma worker_step:
  assumes desc: "sorted_wrt (\<lambda>a b. sweepKey b < sweepKey a) (sweepOrder rows)"
    and rem: "filter (continuationFilter cursor) (sweepOrder rows) = drop n (sweepOrder rows)"
    and n: "n < length (sweepOrder rows)"
  shows "selectBuyOrders rows cursor 1 = [sweepOrder rows ! n]"
    and "worker rows cursor st =
      st\<lparr>order_events := filter (\<lambda>e. oe_order_id e \<noteq> or_id (sweepOrder rows ! n)) (order_events st),
         sweepQueue := sweepQueue st @ [Some (cursorOf (sweepOrder rows ! n))]\<rparr>"
    and "filter (continuationFilter (Some (cursorOf (sweepOrder rows ! n)))) (sweepOrder rows) =
      drop (Suc n) (sweepOrder rows)"
proof -
  have "drop n (sweepOrder rows) = sweepOrder rows ! n # drop (Suc n) (sweepOrder rows)"
    using n by (simp add: Cons_nth_drop_Suc)
  then show page: "selectBuyOrders rows cursor 1 = [sweepOrder rows ! n]"
    unfolding selectBuyOrders_sweepOrder rem by simp
  show "worker rows cursor st =
      st\<lparr>order_events := filter (\<lambda>e. oe_order_id e \<noteq> or_id (sweepOrder rows ! n)) (order_events st),
         sweepQueue := sweepQueue st @ [Some (cursorOf (sweepOrder rows ! n))]\<rparr>"
    unfolding worker_def Let_def page
    by (simp add: sweep_addToQueue_def cursorOf_def)
  show "filter (continuationFilter (Some (cursorOf (sweepOrder rows ! n)))) (sweepOrder rows) =
      drop (Suc n) (sweepOrder rows)"
    unfolding continuationFilter_cursorOf using filter_below_nth[OF desc n] .
qed

lemma worker_done:
  assumes rem: "filter (continuationFilter cursor) (sweepOrder rows) = drop n (sweepOrder rows)"
    and n: "length (sweepOrder rows) \<le> n"
  shows "selectBuyOrders rows cursor 1 = []" and "worker rows cursor st = st"
proof -
  show page: "selectBuyOrders rows cursor 1 = []"
    unfolding selectBuyOrders_sweepOrder rem using n by simp
  show "worker rows cursor st = st"
    unfolding worker_def Let_def page by simp
qed

lemma invocations_Suc:
  "invocations rows (Suc n) st = processNext rows (invocations rows n st)"
  by (induction n arbitrary: st) simp_all

lemma sweep_invariant:
  assumes desc: "sorted_wrt (\<lambda>a b. sweepKey b < sweepKey a) (sweepOrder rows)"
    and q0: "sweepQueue st = [None]"
    and n: "n \<le> length (sweepOrder rows)"
  shows "\<exists>cursor. sweepQueue (invocations rows n st) = [cursor]
     \<and> filter (continuationFilter cursor) (sweepOrder rows) = drop n (sweepOrder rows)
     \<and> order_events (invocations rows n st) =
         filter (\<lambda>e. oe_order_id e \<notin> or_id ` set (take n (sweepOrder rows))) (order_events st)"
  using n
proof (induction n)
  case 0
  show ?case using q0 by (simp add: continuationFilter_def)
next
  case (Suc n)
  then have n: "n < length (sweepOrder rows)" by simp
  obtain cursor where c: "sweepQueue (invocations rows n st) = [cursor]"
    and rem: "filter (continuationFilter cursor) (sweepOrder rows) = drop n (sweepOrder rows)"
    and ev: "order_events (invocations rows n st) =
         filter (\<lambda>e. oe_order_id e \<notin> or_id ` set (take n (sweepOrder rows))) (order_events st)"
    using Suc.IH n by auto
  let ?st = "invocations rows n st"
  have step: "invocations rows (Suc n) st = worker rows cursor (?st\<lparr>sweepQueue := []\<rparr>)"
    unfolding invocations_Suc processNext_def c by simp
  note w = worker_step[OF desc rem n]
  have tk: "take (Suc n) (sweepOrder rows) = take n (sweepOrder rows) @ [sweepOrder rows ! n]"
    using n by (simp add: take_Suc_conv_app_nth)
  have "sweepQueue (invocations rows (Suc n) st) = [Some (cursorOf (sweepOrder rows ! n))]"
    unfolding step w(2) by simp
  moreover have "order_events (invocations rows (Suc n) st) =
         filter (\<lambda>e. oe_order_id e \<notin> or_id ` set (take (Suc n) (sweepOrder rows))) (order_events st)"
    unfolding step w(2) tk by (simp add: ev conj_commute)
  ultimately show ?case using w(3) by blast
qed

lemma sweepOrder_facts:
  "length (sweepOrder rows) = length (buyOrderRows rows)"
  "set (sweepOrder rows) = set (buyOrderRows rows)"
  by (simp_all add: sweepOrder_def)

text \<open>
  Claim C6. Take a table whose \<open>M\<close> buy orders have pairwise distinct (created_at, id)
  pairs (the id is the key of the table) and a queue that holds the one job without a
  cursor. After \<open>n \<le> M\<close> handler invocations exactly one job is pending; its cursor
  leaves \<open>M - n\<close> buy orders ahead, so each invocation shrinks the remaining set by one
  row; and the invocation that takes this job observes one row when \<open>n < M\<close> and no row
  when \<open>n = M\<close>. The first \<open>M\<close> invocations thus process one row each, the
  \<open>(M+1)\<close>th observes zero rows and enqueues nothing, the queue is empty after it, and
  the events of every buy order are deleted.
\<close>

theorem cursor_sweep_terminates:
  assumes "distinct (map (\<lambda>r. (or_created_at r, or_id r)) (buyOrderRows rows))"
    and "sweepQueue st = [None]"
  shows "(\<forall>n \<le> length (buyOrderRows rows).
            \<exists>cursor. sweepQueue (invocations rows n st) = [cursor]
              \<and> length (remaining rows cursor) = length (buyOrderRows rows) - n
              \<and> length (selectBuyOrders rows cursor 1) =
                  (if n < length (buyOrderRows rows) then 1 else 0))
     \<and> sweepQueue (invocations rows (Suc (length (buyOrderRows rows))) st) = []
     \<and> order_events (invocations rows (Suc (length (buyOrderRows rows))) st) =
         filter (\<lambda>e. oe_order_id e \<notin> or_id ` set (buyOrderRows rows)) (order_events st)"
proof -
  let ?M = "length (buyOrderRows rows)"
  have d: "distinct (map sweepKey (buyOrderRows rows))"
    using assms(1) by (simp add: sweepKey_def[abs_def])
  note desc = sweepOrder_desc[OF d]
  have len: "length (sweepOrder rows) = ?M" by (rule sweepOrder_facts)
  have pending: "\<exists>cursor. sweepQueue (invocations rows n st) = [cursor]
              \<and> length (remaining rows cursor) = ?M - n
              \<and> length (selectBuyOrders rows cursor 1) = (if n < ?M then 1 else 0)"
    if n: "n \<le> ?M" for n
  proof -
    obtain cursor where c: "sweepQueue (invocations rows n st) = [cursor]"
      and rem: "filter (continuationFilter cursor) (sweepOrder rows) = drop n (sweepOrder rows)"
      using sweep_invariant[OF desc assms(2), of n] n len by auto
    have "length (remaining rows cursor) = ?M - n"
      unfolding length_remaining rem by (simp add: len)
    moreover have "length (selectBuyOrders rows cursor 1) = (if n < ?M then 1 else 0)"
    proof (cases "n < ?M")
      case True
      then show ?thesis using worker_step(1)[OF desc rem] len by simp
    next
      case False
      then show ?thesis using worker_done(1)[OF rem] len by simp
    qed
    ultimately show ?thesis using c by blast
  qed
  obtain cursor where c: "sweepQueue (invocations rows ?M st) = [cursor]"
    and rem: "filter (continuationFilter cursor) (sweepOrder rows) = drop ?M (sweepOrder rows)"
    and ev: "order_events (invocations rows ?M st) =
         filter (\<lambda>e. oe_order_id e \<notin> or_id ` set (take ?M (sweepOrder rows))) (order_events st)"
    using sweep_invariant[OF desc assms(2), of ?M] len by auto
  have last: "invocations rows (Suc ?M) st = (invocations rows ?M st)\<lparr>sweepQueue := []\<rparr>"
    unfolding invocations_Suc processNext_def c
    using worker_done(2)[OF rem] len by simp
  have "take ?M (sweepOrder rows) = sweepOrder rows" using len by simp
  then have ev': "order_events (invocations rows ?M st) =
         filter (\<lambda>e. oe_order_id e \<notin> or_id ` set (buyOrderRows rows)) (order_events st)"
    using ev by (simp add: sweepOrder_facts)
  show ?thesis
    using pending unfolding last by (simp add: ev')
qed

lemma exampleOrders_buy:
  "buyOrderRows exampleOrders =
     [\<lparr>or_id = ''0xo1'', or_created_at = 10, or_side = ''buy''\<rparr>,
      \<lparr>or_id = ''0xo3'', or_created_at = 20, or_side = ''buy''\<rparr>,
      \<lparr>or_id = ''0xo4'', or_created_at = 10, or_side = ''buy''\<rparr>]"
  by (simp add: buyOrderRows_def exampleOrders_def)

lemma exampleSweep_trace:
  "sweepQueue (invocations exampleOrders 1 exampleSweep) = [Some \<lparr>cur_id = ''0xo3'', cur_createdAt = 20\<rparr>]"
  "sweepQueue (invocations exampleOrders 2 exampleSweep) = [Some \<lparr>cur_id = ''0xo4'', cur_createdAt = 10\<rparr>]"
  "sweepQueue (invocations exampleOrders 3 exampleSweep) = [Some \<lparr>cur_id = ''0xo1'', cur_createdAt = 10\<rparr>]"
  by (simp_all add: eval_nat_numeral processNext_def worker_def selectBuyOrders_def
      continuationFilter_def limitRows_def orderByDesc_def sweep_addToQueue_def Let_def
      exampleOrders_def exampleSweep_def)

text \<open>
  Three buy orders: the cursor moves from \<^verbatim>\<open>0xo3\<close> (time 20) to \<^verbatim>\<open>0xo4\<close> and \<^verbatim>\<open>0xo1\<close>
  (both time 10), the fourth invocation empties the queue, and only the event of the sell
  order is left.
\<close>

theorem cursor_sweep_terminates_witness:
  "length (buyOrderRows exampleOrders) = 3
   \<and> sweepQueue (invocations exampleOrders 1 exampleSweep) =
       [Some \<lparr>cur_id = ''0xo3'', cur_createdAt = 20\<rparr>]
   \<and> sweepQueue (invocations exampleOrders 2 exampleSweep) =
       [Some \<lparr>cur_id = ''0xo4'', cur_createdAt = 10\<rparr>]
   \<and> sweepQueue (invocations exampleOrders 3 exampleSweep) =
       [Some \<lparr>cur_id = ''0xo1'', cur_createdAt = 10\<rparr>]
   \<and> sweepQueue (invocations exampleOrders 4 exampleSweep) = []
   \<and> order_events (invocations exampleOrders 4 exampleSweep) =
       [\<lparr>oe_order_id = ''0xo2'', oe_kind = ''new-order''\<rparr>]"
proof -
  have d: "distinct (map (\<lambda>r. (or_created_at r, or_id r)) (buyOrderRows exampleOrders))"
    unfolding exampleOrders_buy by simp
  have q: "sweepQueue exampleSweep = [None]" by (simp add: exampleSweep_def)
  have l: "Suc (length (buyOrderRows exampleOrders)) = 4"
    unfolding exampleOrders_buy by simp
  have e: "filter (\<lambda>e. oe_order_id e \<notin> or_id ` set (buyOrderRows exampleOrders)) (order_events exampleSweep) =
       [\<lparr>oe_order_id = ''0xo2'', oe_kind = ''new-order''\<rparr>]"
    unfolding exampleOrders_buy by (simp add: exampleSweep_def)
  show ?thesis
    using cursor_sweep_terminates[OF d q] exampleSweep_trace unfolding l e
    by (simp add: exampleOrders_buy)
qed

section \<open>The start-up lock of remove-buy-order-events\<close>

lemma lock_key: "QUEUE_NAME @ ''-lock'' = ''remove-buy-order-events-queue-lock''"
  by (simp add: QUEUE_NAME_def)

text \<open>
  Claim C9. The start-up code asks for the lock \<^verbatim>\<open>remove-buy-order-events-queue-lock\<close>
  (the queue name followed by \<^verbatim>\<open>-lock\<close>) with a time to live of 30 days, in
  milliseconds. It enqueues the first sweep job, without a cursor, only when it runs
  background work and gets the lock; when the lock is held, the locks and the queue are
  left as they were. In every case no error leaves the promise chain.
\<close>

theorem bootstrap_lock:
  "QUEUE_NAME @ ''-lock'' = ''remove-buy-order-events-queue-lock''
   \<and> (30 * 24 * 60 * 60 * 1000 :: nat) = 2592000000
   \<and> bootstrap config (locks, st) =
       (None,
        if doBackgroundWork config \<and> locks ''remove-buy-order-events-queue-lock'' = None then
          (locks(''remove-buy-order-events-queue-lock'' \<mapsto> 2592000000),
           st\<lparr>sweepQueue := sweepQueue st @ [None]\<rparr>)
        else (locks, st))"
  unfolding bootstrap_def lock_key
  by (simp add: redlock_acquire_def sweep_addToQueue_def)

text \<open>An instance that finds the lock held, and one that finds it free.\<close>

theorem bootstrap_lock_witness:
  "bootstrap \<lparr>chainId = 1, acceptOrders = True, doBackgroundWork = True\<rparr>
     ([''remove-buy-order-events-queue-lock'' \<mapsto> 2592000000], \<lparr>order_events = [], sweepQueue = []\<rparr>) =
     (None, [''remove-buy-order-events-queue-lock'' \<mapsto> 2592000000], \<lparr>order_events = [], sweepQueue = []\<rparr>)
   \<and> sweepQueue (snd (snd (bootstrap \<lparr>chainId = 1, acceptOrders = True, doBackgroundWork = True\<rparr>
        (Map.empty, \<lparr>order_events = [], sweepQueue = []\<rparr>)))) = [None]
   \<and> fst (snd (bootstrap \<lparr>chainId = 1, acceptOrders = True, doBackgroundWork = True\<rparr>
        (Map.empty, \<lparr>order_events = [], sweepQueue = []\<rparr>))) ''remove-buy-order-events-queue-lock'' =
       Some (30 * 24 * 60 * 60 * 1000)"
  using bootstrap_lock[of "\<lparr>chainId = 1, acceptOrders = True, doBackgroundWork = True\<rparr>"
      "[''remove-buy-order-events-queue-lock'' \<mapsto> 2592000000]" "\<lparr>order_events = [], sweepQueue = []\<rparr>"]
    bootstrap_lock[of "\<lparr>chainId = 1, acceptOrders = True, doBackgroundWork = True\<rparr>"
      Map.empty "\<lparr>order_events = [], sweepQueue = []\<rparr>"]
  by simp

section \<open>The queue of resync-attribute-cache\<close>

lemma queueAdd_present:
  "list_ex (\<lambda>j. rj_jobId j = rj_jobId job) q \<Longrightarrow> queueAdd job q = q"
  by (simp add: queueAdd_def)

lemma queueAdd_absent:
  "\<not> list_ex (\<lambda>j. rj_jobId j = rj_jobId job) q \<Longrightarrow> queueAdd job q = q @ [job]"
  by (simp add: queueAdd_def)

lemma queueAdd_has_id: "list_ex (\<lambda>j. rj_jobId j = rj_jobId job) (queueAdd job q)"
  by (simp add: queueAdd_def list_ex_iff)

lemma queueAdd_twice:
  "rj_jobId job' = rj_jobId job \<Longrightarrow> queueAdd job' (queueAdd job q) = queueAdd job q"
  using queueAdd_has_id[of job q] by (simp add: queueAdd_present)

text \<open>
  Claim C7. A second \<open>addToQueue\<close> for the same contract and token id, whatever its
  delay, changes nothing in the queue. Starting from a queue without a job for the pair,
  two calls leave exactly one job for it, with name and job id \<^verbatim>\<open>contract:tokenId\<close> and
  the default delay of 3600000 milliseconds, which is 60 minutes.
\<close>

theorem resync_enqueue_deduplicated:
  "resync_addToQueue contract tokenId delay' (resync_addToQueue contract tokenId delay q) =
     resync_addToQueue contract tokenId delay q
   \<and> (\<not> list_ex (\<lambda>j. rj_jobId j = contract @ '':'' @ tokenId) q \<longrightarrow>
        resync_addToQueue contract tokenId None (resync_addToQueue contract tokenId None q) =
          q @ [\<lparr>rj_name = contract @ '':'' @ tokenId, rj_jobId = contract @ '':'' @ tokenId,
                rj_contract = contract, rj_tokenId = tokenId, rj_delay = 3600000\<rparr>]
        \<and> length (filter (\<lambda>j. rj_jobId j = contract @ '':'' @ tokenId)
             (resync_addToQueue contract tokenId None (resync_addToQueue contract tokenId None q))) = 1)"
proof -
  have twice: "resync_addToQueue contract tokenId d' (resync_addToQueue contract tokenId d q) =
     resync_addToQueue contract tokenId d q" for d d'
    unfolding resync_addToQueue_def Let_def by (rule queueAdd_twice) simp
  have once: "resync_addToQueue contract tokenId None q =
          q @ [\<lparr>rj_name = contract @ '':'' @ tokenId, rj_jobId = contract @ '':'' @ tokenId,
                rj_contract = contract, rj_tokenId = tokenId, rj_delay = 3600000\<rparr>]"
    if "\<not> list_ex (\<lambda>j. rj_jobId j = contract @ '':'' @ tokenId) q"
    unfolding resync_addToQueue_def Let_def using that by (simp add: queueAdd_absent)
  have none: "filter (\<lambda>j. rj_jobId j = contract @ '':'' @ tokenId) q = []"
    if "\<not> list_ex (\<lambda>j. rj_jobId j = contract @ '':'' @ tokenId) q"
    using that by (simp add: list_ex_iff filter_empty_conv)
  show ?thesis
  proof (intro conjI impI)
    show "resync_addToQueue contract tokenId delay' (resync_addToQueue contract tokenId delay q) =
        resync_addToQueue contract tokenId delay q"
      by (rule twice)
  next
    assume a: "\<not> list_ex (\<lambda>j. rj_jobId j = contract @ '':'' @ tokenId) q"
    show eq: "resync_addToQueue contract tokenId None (resync_addToQueue contract tokenId None q) =
          q @ [\<lparr>rj_name = contract @ '':'' @ tokenId, rj_jobId = contract @ '':'' @ tokenId,
                rj_contract = contract, rj_tokenId = tokenId, rj_delay = 3600000\<rparr>]"
      by (rule trans[OF twice once[OF a]])
    show "length (filter (\<lambda>j. rj_jobId j = contract @ '':'' @ tokenId)
             (resync_addToQueue contract tokenId None (resync_addToQueue contract tokenId None q))) = 1"
      unfolding eq using none[OF a] by simp
  qed
qed

text \<open>Two calls for token 7 on a queue that holds a job for token 8.\<close>

theorem resync_enqueue_deduplicated_witness:
  "resync_addToQueue ''0xc1'' ''7'' None (resync_addToQueue ''0xc1'' ''7'' None
      [\<lparr>rj_name = ''0xc1:8'', rj_jobId = ''0xc1:8'', rj_contract = ''0xc1'', rj_tokenId = ''8'',
        rj_delay = 3600000\<rparr>]) =
     [\<lparr>rj_name = ''0xc1:8'', rj_jobId = ''0xc1:8'', rj_contract = ''0xc1'', rj_tokenId = ''8'',
       rj_delay = 3600000\<rparr>,
      \<lparr>rj_name = ''0xc1:7'', rj_jobId = ''0xc1:7'', rj_contract = ''0xc1'', rj_tokenId = ''7'',
       rj_delay = 3600000\<rparr>]
   \<and> (3600000 :: nat) = 60 * (60 * 1000)"
proof -
  have a: "\<not> list_ex (\<lambda>j. rj_jobId j = ''0xc1'' @ '':'' @ ''7'')
      [\<lparr>rj_name = ''0xc1:8'', rj_jobId = ''0xc1:8'', rj_contract = ''0xc1'', rj_tokenId = ''8'',
        rj_delay = 3600000\<rparr>]"
    by simp
  note t = resync_enqueue_deduplicated[of "''0xc1''" "''7''" None None
      "[\<lparr>rj_name = ''0xc1:8'', rj_jobId = ''0xc1:8'', rj_contract = ''0xc1'', rj_tokenId = ''8'',
        rj_delay = 3600000\<rparr>]"]
  from t[THEN conjunct2, rule_format, OF a, THEN conjunct1] show ?thesis
    by simp
qed

end
